theory Spec2Isabelle
  imports Complex_Main
begin

section \<open>The spring embedder on grids: data model\<close>

text \<open>
  The development follows \<^verbatim>\<open>src/js/SpringEmbeddersGPUAlgorithm.js\<close>.

  Coordinates, canvas sizes and the four simulation parameters are JavaScript numbers; they
  are modelled by \<^typ>\<open>real\<close>. The GPU library computes and stores the cells of
  its output in single precision, so the addition the kernel performs is not the addition
  of the reals: it is a parameter \<open>fadd\<close> of the kernel and of the tick, and the
  general statements hold for every such addition. The concrete evaluations are given for
  every \<open>fadd\<close> and at the exact addition. The numbers stored in the node and
  adjacency matrices are integers, except where the source divides by a matrix size of
  zero; those values are written out.

  A node object is a record. The field \<open>nid\<close> stands for the identity of the object
  (its reference); \<open>neighbours\<close> holds the references of the neighbour objects.
  \<open>graph.nodes\<close> is the list of the node records, each object occurring once.
\<close>

record node =
  nid :: nat
  node_x :: real
  node_y :: real
  isFixed :: bool
  neighbours :: "nat list"

text \<open>Integer-valued JavaScript numbers, with the results of dividing by zero.\<close>

datatype jsint = Fin int | NaN | Infinity | NegInfinity

text \<open>
  The errors of the model. \<open>TypeError\<close> is the exception the source raises when it
  reads a property of \<open>undefined\<close> or \<open>null\<close>. \<open>GpuError\<close> is the Error the
  GPU library raises when it is asked to run a kernel whose output has no cell.
  \<open>Unmodelled\<close> marks the places where the source would leave the typed model (a row
  of a matrix growing, or the kernel of the GPU library applied to an argument of another
  shape than its output).
\<close>

datatype error = TypeError | GpuError | Unmodelled

type_synonym 'a matrix = "'a list list"

text \<open>
  The kernel object of the GPU library: its output size, the field
  \<open>constants.speed\<close>, and the constant built into the compiled kernel. The library
  compiles the kernel at its first call, with the value \<open>constants.speed\<close> has then;
  \<open>compiled\<close> is \<open>None\<close> before that call.
\<close>

record kernel =
  outputSize :: nat
  constants_speed :: real
  compiled :: "real option"

record engine =
  graph :: "node list"
  width :: real
  height :: real
  speed :: real
  springRestLength :: real
  springDampening :: real
  charge :: real
  positionsMatrix :: "(real \<times> real) matrix"
  adjacencyMatrix :: "(jsint \<times> jsint) matrix"
  nodesMatrix :: "(jsint \<times> jsint \<times> jsint) matrix"
  kernel :: "kernel option"

section \<open>setProperties\<close>

text \<open>
  The argument of \<open>setProperties\<close> is an object read at four keys. It is a map from
  key to value; a key that is absent reads as \<open>undefined\<close>, which is \<open>None\<close>.
  The values are numbers (the caller produces them with \<open>parseInt\<close> and
  \<open>parseFloat\<close>, which can return NaN).
\<close>

datatype jsvalue = Number real | NotANumber

type_synonym properties = "string \<Rightarrow> jsvalue option"

text \<open>\<open>v || d\<close> for a number or \<open>undefined\<close> on the left: the falsy values are
  \<open>undefined\<close>, NaN and zero.\<close>

fun falsy :: "jsvalue option \<Rightarrow> bool" where
  "falsy None = True"
| "falsy (Some NotANumber) = True"
| "falsy (Some (Number r)) = (r = 0)"

fun orElse :: "jsvalue option \<Rightarrow> real \<Rightarrow> real" where
  "orElse (Some (Number r)) d = (if r = 0 then d else r)"
| "orElse (Some NotANumber) d = d"
| "orElse None d = d"

definition setProperties :: "properties \<Rightarrow> engine \<Rightarrow> engine" where
  "setProperties props s =
     s\<lparr> speed := orElse (props ''speed'') (speed s),
        springDampening := orElse (props ''springDampening'') (springDampening s),
        springRestLength := orElse (props ''springRestLength'') (springRestLength s),
        charge := orElse (props ''charge'') (charge s) \<rparr>"

text \<open>The assignments of the constructor, lines 5 to 23, before it calls \<open>setGraph\<close>.\<close>

definition initialFields :: "real \<Rightarrow> real \<Rightarrow> engine" where
  "initialFields w h =
     \<lparr> graph = [], width = w, height = h, speed = 1 / 100,
       springRestLength = 10, springDampening = 1 / 10, charge = 150 * 150,
       positionsMatrix = [], adjacencyMatrix = [], nodesMatrix = [],
       kernel = None \<rparr>"

section \<open>Encoding the graph into three matrices\<close>

text \<open>
  \<open>Math.ceil(Math.sqrt(n))\<close> for a length \<open>n\<close>: the least \<open>k\<close> with
  \<open>n \<le> k * k\<close>, found by counting upwards. Lemma \<open>ceilSqrt_eq\<close> below shows
  that it is the ceiling of the real square root.
\<close>

definition ceilSqrt :: "nat \<Rightarrow> nat" where
  "ceilSqrt n = length (takeWhile (\<lambda>k. k * k < n) [0..<n])"

text \<open>
  \<open>Math.floor(a / b)\<close> and \<open>a % b\<close> on integers. Division by zero gives NaN or
  an infinity; the remainder takes the sign of the dividend (a negative zero is not told
  apart from zero).
\<close>

definition jsFloorDiv :: "int \<Rightarrow> int \<Rightarrow> jsint" where
  "jsFloorDiv a b =
     (if b = 0 then (if a = 0 then NaN else if 0 < a then Infinity else NegInfinity)
      else Fin (a div b))"

definition jsRem :: "int \<Rightarrow> int \<Rightarrow> jsint" where
  "jsRem a b = (if b = 0 then NaN else Fin (sgn a * (\<bar>a\<bar> mod \<bar>b\<bar>)))"

definition indexToMatrixCoordinates :: "int \<Rightarrow> int \<Rightarrow> int \<Rightarrow> jsint \<times> jsint" where
  "indexToMatrixCoordinates index rows columns = (jsFloorDiv index rows, jsRem index columns)"

text \<open>
  \<open>_create3dMatrix(rows, columns, depth, defaultValue)\<close> with a depth above one:
  every cell is a fresh array of \<open>depth\<close> copies of the default. A cell of fixed
  length is a tuple here, so the last two arguments arrive as the cell itself:
  depth 2 with default \<open>-1\<close> is the pair \<open>(-1, -1)\<close>.
\<close>

definition create3dMatrix :: "nat \<Rightarrow> nat \<Rightarrow> 'a \<Rightarrow> 'a matrix" where
  "create3dMatrix rows columns cell = replicate rows (replicate columns cell)"

text \<open>
  The assignment \<open>m[r][c] = v\<close>. When \<open>m[r]\<close> is \<open>undefined\<close> the source
  raises a TypeError. When the row exists and \<open>c\<close> is no index of it, the source
  would grow the row or attach a property to it; the model stops there.
\<close>

definition setCell :: "'a matrix \<Rightarrow> jsint \<Rightarrow> jsint \<Rightarrow> 'a \<Rightarrow> error + 'a matrix" where
  "setCell m r c v =
     (case r of
        Fin i \<Rightarrow>
          if 0 \<le> i \<and> nat i < length m then
            (case c of
               Fin j \<Rightarrow>
                 if 0 \<le> j \<and> nat j < length (m ! nat i)
                 then Inr (m[nat i := (m ! nat i)[nat j := v]])
                 else Inl Unmodelled
             | _ \<Rightarrow> Inl Unmodelled)
          else Inl TypeError
      | _ \<Rightarrow> Inl TypeError)"

text \<open>\<open>graph.nodes.indexOf(neighbour)\<close>: the first position of the object, or \<open>-1\<close>.\<close>

fun indexOf :: "node list \<Rightarrow> nat \<Rightarrow> int" where
  "indexOf [] r = - 1"
| "indexOf (n # ns) r =
     (if nid n = r then 0 else (let k = indexOf ns r in if k < 0 then - 1 else k + 1))"

text \<open>The state of the loop of \<open>_createGraphMatrices\<close>: the cursor and the matrices.\<close>

record encoding =
  adjMatrixNextFreeSpotIndex :: nat
  nodesM :: "(jsint \<times> jsint \<times> jsint) matrix"
  adjacencyM :: "(jsint \<times> jsint) matrix"
  positionsM :: "(real \<times> real) matrix"

text \<open>The body of \<open>currentNode.neighbours.forEach\<close>, lines 130 to 139.\<close>

fun fillNeighbours ::
  "node list \<Rightarrow> nat \<Rightarrow> nat \<Rightarrow> nat list \<Rightarrow> nat \<times> (jsint \<times> jsint) matrix
    \<Rightarrow> error + (nat \<times> (jsint \<times> jsint) matrix)" where
  "fillNeighbours nodes P A [] (cursor, adj) = Inr (cursor, adj)"
| "fillNeighbours nodes P A (neighbour # rest) (cursor, adj) =
     (let (adjX, adjY) = indexToMatrixCoordinates (int cursor) (int A) (int A);
          neighbourIndex = indexOf nodes neighbour;
          neighbourCoords = indexToMatrixCoordinates neighbourIndex (int P) (int P)
      in case setCell adj adjX adjY neighbourCoords of
           Inl e \<Rightarrow> Inl e
         | Inr adj' \<Rightarrow> fillNeighbours nodes P A rest (cursor + 1, adj'))"

text \<open>The loop over the nodes, lines 113 to 140, from index \<open>i\<close> on.\<close>

fun encodeFrom ::
  "node list \<Rightarrow> nat \<Rightarrow> nat \<Rightarrow> nat \<Rightarrow> node list \<Rightarrow> encoding \<Rightarrow> error + encoding" where
  "encodeFrom nodes P A i [] st = Inr st"
| "encodeFrom nodes P A i (currentNode # rest) st =
     (let (adjX, adjY) =
            indexToMatrixCoordinates (int (adjMatrixNextFreeSpotIndex st)) (int A) (int A);
          (nodeX, nodeY) = indexToMatrixCoordinates (int i) (int P) (int P)
      in case setCell (nodesM st) nodeX nodeY
                (adjX, adjY, Fin (int (length (neighbours currentNode)))) of
           Inl e \<Rightarrow> Inl e
         | Inr nm \<Rightarrow>
             (case setCell (positionsM st) nodeX nodeY
                     (node_x currentNode, node_y currentNode) of
                Inl e \<Rightarrow> Inl e
              | Inr pm \<Rightarrow>
                  (case fillNeighbours nodes P A (neighbours currentNode)
                          (adjMatrixNextFreeSpotIndex st, adjacencyM st) of
                     Inl e \<Rightarrow> Inl e
                   | Inr (cursor, am) \<Rightarrow>
                       encodeFrom nodes P A (i + 1) rest
                         \<lparr> adjMatrixNextFreeSpotIndex = cursor, nodesM = nm,
                           adjacencyM = am, positionsM = pm \<rparr>)))"

definition totalNumberOfEdges :: "node list \<Rightarrow> nat" where
  "totalNumberOfEdges nodes = foldl (\<lambda>total current. total + current) 0
     (map (\<lambda>n. length (neighbours n)) nodes)"

definition encodeGraph :: "node list \<Rightarrow> error + encoding" where
  "encodeGraph nodes =
     (let nodesMatrixSize = ceilSqrt (length nodes);
          adjacencyMatrixSize = ceilSqrt (totalNumberOfEdges nodes)
      in encodeFrom nodes nodesMatrixSize adjacencyMatrixSize 0 nodes
           \<lparr> adjMatrixNextFreeSpotIndex = 0,
             nodesM = create3dMatrix nodesMatrixSize nodesMatrixSize (Fin (- 1), Fin (- 1), Fin (- 1)),
             adjacencyM = create3dMatrix adjacencyMatrixSize adjacencyMatrixSize (Fin (- 1), Fin (- 1)),
             positionsM = create3dMatrix nodesMatrixSize nodesMatrixSize (- 1, - 1) \<rparr>)"

definition createGraphMatrices :: "engine \<Rightarrow> error + engine" where
  "createGraphMatrices s =
     (case encodeGraph (graph s) of
        Inl e \<Rightarrow> Inl e
      | Inr enc \<Rightarrow>
          Inr (s\<lparr> positionsMatrix := positionsM enc,
                 adjacencyMatrix := adjacencyM enc,
                 nodesMatrix := nodesM enc \<rparr>))"

section \<open>The kernel and the tick\<close>

text \<open>
  The kernel function of line 39: a thread at \<open>(row, col)\<close> reads
  \<open>positions[row][col]\<close> and returns the pair moved by the constant and by
  \<open>0.1\<close>, with the addition of the library.
\<close>

definition kernelBody :: "(real \<Rightarrow> real \<Rightarrow> real) \<Rightarrow> real \<Rightarrow> real \<times> real \<Rightarrow> real \<times> real" where
  "kernelBody fadd c p = (fadd (fst p) c, fadd (snd p) (1 / 10))"

text \<open>
  The constant a call of the kernel applies: the one built in at the first call, or, at
  the first call, the current value of \<open>constants.speed\<close>.
\<close>

definition appliedConstant :: "kernel \<Rightarrow> real" where
  "appliedConstant k = (case compiled k of None \<Rightarrow> constants_speed k | Some c \<Rightarrow> c)"

text \<open>
  A call of the kernel. The library runs one thread for every cell of an
  \<open>outputSize \<times> outputSize\<close> output; it raises an Error when the output has no
  cell. After the call the kernel is compiled. An argument of another shape than the
  output is outside what the source fixes.
\<close>

definition runKernel ::
  "(real \<Rightarrow> real \<Rightarrow> real) \<Rightarrow> kernel \<Rightarrow> (real \<times> real) matrix
    \<Rightarrow> error + (kernel \<times> (real \<times> real) matrix)" where
  "runKernel fadd k positions =
     (if outputSize k = 0 then Inl GpuError
      else if length positions = outputSize k
         \<and> list_all (\<lambda>row. length row = outputSize k) positions
      then Inr (k\<lparr>compiled := Some (appliedConstant k)\<rparr>,
                map (\<lambda>row. map (\<lambda>col. kernelBody fadd (appliedConstant k) (positions ! row ! col))
                              [0..<outputSize k])
                  [0..<outputSize k])
      else Inl Unmodelled)"

definition createKernel :: "engine \<Rightarrow> engine" where
  "createKernel s =
     s\<lparr>kernel := Some \<lparr> outputSize = length (nodesMatrix s), constants_speed = 3,
                         compiled = None \<rparr>\<rparr>"

definition setUpGPU :: "engine \<Rightarrow> error + engine" where
  "setUpGPU s = (case createGraphMatrices s of Inl e \<Rightarrow> Inl e | Inr s' \<Rightarrow> Inr (createKernel s'))"

text \<open>
  \<open>setGraph\<close>. The results of the successive calls of \<open>Math.random()\<close> are the
  sequence \<open>rnd\<close>; the node at index \<open>i\<close> takes the draws \<open>2 * i\<close> and
  \<open>2 * i + 1\<close>.
\<close>

fun randomiseFrom :: "(nat \<Rightarrow> real) \<Rightarrow> real \<Rightarrow> real \<Rightarrow> nat \<Rightarrow> node list \<Rightarrow> node list" where
  "randomiseFrom rnd w h i [] = []"
| "randomiseFrom rnd w h i (n # ns) =
     n\<lparr> node_x := w / 2 + (100 * rnd (2 * i)) - 50,
        node_y := h / 2 + (100 * rnd (2 * i + 1) - 50),
        isFixed := False \<rparr>
     # randomiseFrom rnd w h (i + 1) ns"

definition setGraph :: "(nat \<Rightarrow> real) \<Rightarrow> node list \<Rightarrow> engine \<Rightarrow> error + engine" where
  "setGraph rnd g s = setUpGPU (s\<lparr>graph := randomiseFrom rnd (width s) (height s) 0 g\<rparr>)"

definition newEngine :: "(nat \<Rightarrow> real) \<Rightarrow> node list \<Rightarrow> real \<Rightarrow> real \<Rightarrow> error + engine" where
  "newEngine rnd g w h = setGraph rnd g (initialFields w h)"

text \<open>
  The write-back loop, lines 192 to 201, over the cells \<open>(row, col)\<close> in the order of
  the two nested loops. An exception leaves the nodes as they are at that moment.
\<close>

fun writeBack ::
  "(real \<times> real) matrix \<Rightarrow> nat \<Rightarrow> (nat \<times> nat) list \<Rightarrow> node list \<Rightarrow> node list \<times> error option" where
  "writeBack pm rows [] ns = (ns, None)"
| "writeBack pm rows ((row, col) # cells) ns =
     (let nodeIndex = row * rows + col
      in if nodeIndex < length ns then
           (if row < length pm \<and> col < length (pm ! row)
            then writeBack pm rows cells
                   (ns[nodeIndex := (ns ! nodeIndex)\<lparr> node_x := fst (pm ! row ! col),
                                                     node_y := snd (pm ! row ! col) \<rparr>])
            else (ns, Some TypeError))
         else writeBack pm rows cells ns)"

text \<open>Lines 189 to 201: \<open>positionsMatrix[0].length\<close> raises on an empty matrix.\<close>

definition decodePositions :: "(real \<times> real) matrix \<Rightarrow> node list \<Rightarrow> node list \<times> error option" where
  "decodePositions pm ns =
     (case pm of
        [] \<Rightarrow> (ns, Some TypeError)
      | row0 # _ \<Rightarrow>
          writeBack pm (length pm) (List.product [0..<length pm] [0..<length row0]) ns)"

text \<open>
  \<open>computeNextPositions\<close> returns the state it leaves behind and the exception it
  raised, if any: what it has assigned before raising stays assigned.
\<close>

definition computeNextPositions ::
  "(real \<Rightarrow> real \<Rightarrow> real) \<Rightarrow> engine \<Rightarrow> engine \<times> error option" where
  "computeNextPositions fadd s =
     (case kernel s of
        None \<Rightarrow> (s, Some TypeError)
      | Some k \<Rightarrow>
          (let k' = k\<lparr>constants_speed := constants_speed k + 3\<rparr>;
               s1 = s\<lparr>kernel := Some k'\<rparr>
           in case runKernel fadd k' (positionsMatrix s1) of
                Inl e \<Rightarrow> (s1, Some e)
              | Inr (k'', pm) \<Rightarrow>
                  (let s2 = s1\<lparr>kernel := Some k'', positionsMatrix := pm\<rparr>;
                       r = decodePositions pm (graph s2)
                   in (s2\<lparr>graph := fst r\<rparr>, snd r))))"

text \<open>
  The state after one call and after \<open>n\<close> calls of \<open>computeNextPositions\<close>,
  whether or not a call raised.
\<close>

definition tick :: "(real \<Rightarrow> real \<Rightarrow> real) \<Rightarrow> engine \<Rightarrow> engine" where
  "tick fadd s = fst (computeNextPositions fadd s)"


section \<open>Reading an adjacency run\<close>

text \<open>
  The reading procedure of the specification: \<open>degree\<close> sequential reads of the
  adjacency matrix from \<open>(adjRow, adjCol)\<close> on, in row-major order, going to the start
  of the next row at the end of a row. A read outside the matrix gives \<open>None\<close>.
\<close>

definition nextCell :: "nat \<Rightarrow> nat \<times> nat \<Rightarrow> nat \<times> nat" where
  "nextCell A rc = (if snd rc + 1 < A then (fst rc, snd rc + 1) else (fst rc + 1, 0))"

fun readRun :: "'a matrix \<Rightarrow> nat \<times> nat \<Rightarrow> nat \<Rightarrow> 'a list option" where
  "readRun adj rc 0 = Some []"
| "readRun adj rc (Suc d) =
     (if fst rc < length adj \<and> snd rc < length (adj ! fst rc)
      then (case readRun adj (nextCell (length adj) rc) d of
              None \<Rightarrow> None
            | Some vs \<Rightarrow> Some (adj ! fst rc ! snd rc # vs))
      else None)"

fun readNeighbours ::
  "(jsint \<times> jsint) matrix \<Rightarrow> jsint \<times> jsint \<times> jsint \<Rightarrow> (jsint \<times> jsint) list option" where
  "readNeighbours adj (Fin r, Fin c, Fin d) =
     (if d \<le> 0 then Some []
      else if 0 \<le> r \<and> 0 \<le> c then readRun adj (nat r, nat c) (nat d) else None)"
| "readNeighbours adj (_, _, Fin d) = (if d \<le> 0 then Some [] else None)"
| "readNeighbours adj (_, _, _) = None"

text \<open>The cell at the linear index \<open>k\<close> of a square matrix of side \<open>S\<close>, row-major.\<close>

definition matrixOf :: "nat \<Rightarrow> (nat \<Rightarrow> 'a) \<Rightarrow> 'a matrix" where
  "matrixOf S f = map (\<lambda>r. map (\<lambda>c. f (r * S + c)) [0..<S]) [0..<S]"

section \<open>Closed form of the encoding\<close>

text \<open>
  The functions below describe the result of the encoding loop cell by cell; they are used
  to state and prove what \<open>_createGraphMatrices\<close> computes. \<open>neighbourCoords\<close>
  is lines 133 and 134. \<open>degreeSum\<close> is the number of directed neighbour links of a
  list of nodes; the run of the node at index \<open>i\<close> starts at the linear index
  \<open>degreeSum (take i nodes)\<close>, the value of the cursor when the loop reaches it.
\<close>

definition neighbourCoords :: "node list \<Rightarrow> nat \<Rightarrow> nat \<Rightarrow> jsint \<times> jsint" where
  "neighbourCoords nodes P neighbour =
     indexToMatrixCoordinates (indexOf nodes neighbour) (int P) (int P)"

definition degreeSum :: "node list \<Rightarrow> nat" where
  "degreeSum ns = sum_list (map (\<lambda>n. length (neighbours n)) ns)"

definition nodeCell :: "nat \<Rightarrow> nat \<Rightarrow> node \<Rightarrow> jsint \<times> jsint \<times> jsint" where
  "nodeCell A start n =
     (fst (indexToMatrixCoordinates (int start) (int A) (int A)),
      snd (indexToMatrixCoordinates (int start) (int A) (int A)),
      Fin (int (length (neighbours n))))"

definition encodingOf :: "node list \<Rightarrow> encoding" where
  "encodingOf nodes =
     \<lparr> adjMatrixNextFreeSpotIndex = degreeSum nodes,
       nodesM = matrixOf (ceilSqrt (length nodes))
         (\<lambda>k. if k < length nodes
              then nodeCell (ceilSqrt (degreeSum nodes)) (degreeSum (take k nodes)) (nodes ! k)
              else (Fin (- 1), Fin (- 1), Fin (- 1))),
       adjacencyM = matrixOf (ceilSqrt (degreeSum nodes))
         (\<lambda>k. if k < degreeSum nodes
              then neighbourCoords nodes (ceilSqrt (length nodes)) (concat (map neighbours nodes) ! k)
              else (Fin (- 1), Fin (- 1))),
       positionsM = matrixOf (ceilSqrt (length nodes))
         (\<lambda>k. if k < length nodes then (node_x (nodes ! k), node_y (nodes ! k)) else (- 1, - 1)) \<rparr>"

text \<open>
  The degree a cell of the node matrix records, the number of cells of the adjacency
  matrix that differ from the initial \<open>(-1, -1)\<close>, and graphs all of whose neighbour
  references are nodes of the graph.
\<close>

definition recordedDegree :: "jsint \<times> jsint \<times> jsint \<Rightarrow> nat" where
  "recordedDegree cell = (case snd (snd cell) of Fin d \<Rightarrow> nat d | _ \<Rightarrow> 0)"

definition populatedCells :: "(jsint \<times> jsint) matrix \<Rightarrow> nat" where
  "populatedCells adj = length (filter (\<lambda>cell. cell \<noteq> (Fin (- 1), Fin (- 1))) (concat adj))"

definition closedGraph :: "node list \<Rightarrow> bool" where
  "closedGraph nodes = list_all (\<lambda>n. list_all (\<lambda>r. r \<in> nid ` set nodes) (neighbours n)) nodes"

section \<open>Sample inputs\<close>

text \<open>A path of three nodes, used to evaluate the theorems at a concrete graph.\<close>

definition sampleNodes :: "node list" where
  "sampleNodes =
     [ \<lparr> nid = 10, node_x = 1, node_y = 2, isFixed = False, neighbours = [11] \<rparr>,
       \<lparr> nid = 11, node_x = 3, node_y = 4, isFixed = False, neighbours = [10, 12] \<rparr>,
       \<lparr> nid = 12, node_x = 5, node_y = 6, isFixed = True, neighbours = [11] \<rparr> ]"

text \<open>
  Two nodes joined by an edge, and a single node without neighbours; the draws of
  \<open>Math.random()\<close> that place the two joined nodes at a quarter and at three quarters
  of the canvas width, and the draw one half.
\<close>

definition pairNodes :: "node list" where
  "pairNodes =
     [ \<lparr> nid = 0, node_x = 0, node_y = 0, isFixed = False, neighbours = [1] \<rparr>,
       \<lparr> nid = 1, node_x = 0, node_y = 0, isFixed = False, neighbours = [0] \<rparr> ]"

text \<open>The two joined nodes as a caller may hand them over: with positions and fixed flags set.\<close>

definition stalePairNodes :: "node list" where
  "stalePairNodes =
     [ \<lparr> nid = 0, node_x = 7, node_y = 9, isFixed = True, neighbours = [1] \<rparr>,
       \<lparr> nid = 1, node_x = - 3, node_y = 8, isFixed = True, neighbours = [0] \<rparr> ]"

definition loneNode :: node where
  "loneNode = \<lparr> nid = 0, node_x = 0, node_y = 0, isFixed = False, neighbours = [] \<rparr>"

definition pairDraws :: "nat \<Rightarrow> real" where
  "pairDraws k = (if k = 0 then 1 / 4 else if k = 2 then 3 / 4 else 1 / 2)"

definition halfDraws :: "nat \<Rightarrow> real" where
  "halfDraws k = 1 / 2"


text \<open>
  The engines that the constructor builds from the single node and from the two joined
  nodes on a canvas of 100 by 100, written out.
\<close>

definition loneEngine :: engine where
  "loneEngine =
     \<lparr> graph = [\<lparr> nid = 0, node_x = 50, node_y = 50, isFixed = False, neighbours = [] \<rparr>],
       width = 100, height = 100, speed = 1 / 100,
       springRestLength = 10, springDampening = 1 / 10, charge = 22500,
       positionsMatrix = [[(50, 50)]], adjacencyMatrix = [], nodesMatrix = [[(NaN, NaN, Fin 0)]],
       kernel = Some \<lparr> outputSize = 1, constants_speed = 3, compiled = None \<rparr> \<rparr>"

definition pairEngine :: engine where
  "pairEngine =
     \<lparr> graph = [\<lparr> nid = 0, node_x = 25, node_y = 50, isFixed = False, neighbours = [1] \<rparr>,
                \<lparr> nid = 1, node_x = 75, node_y = 50, isFixed = False, neighbours = [0] \<rparr>],
       width = 100, height = 100, speed = 1 / 100,
       springRestLength = 10, springDampening = 1 / 10, charge = 22500,
       positionsMatrix = [[(25, 50), (75, 50)], [(- 1, - 1), (- 1, - 1)]],
       adjacencyMatrix = [[(Fin 0, Fin 1), (Fin 0, Fin 0)], [(Fin (- 1), Fin (- 1)), (Fin (- 1), Fin (- 1))]],
       nodesMatrix = [[(Fin 0, Fin 0, Fin 1), (Fin 0, Fin 1, Fin 1)],
                      [(Fin (- 1), Fin (- 1), Fin (- 1)), (Fin (- 1), Fin (- 1), Fin (- 1))]],
       kernel = Some \<lparr> outputSize = 2, constants_speed = 3, compiled = None \<rparr> \<rparr>"

section \<open>Theorems about setProperties\<close>

lemma orElse_falsy: "falsy v \<Longrightarrow> orElse v d = d"
  by (cases "(v, d)" rule: orElse.cases) auto

text \<open>
  Claim C5, as stated: a non-positive \<open>speed\<close> or \<open>springRestLength\<close> given to
  \<open>setProperties\<close> is rejected and the field keeps its prior value. This fails for a
  negative number, which is truthy: with \<open>{speed: -1}\<close> on the engine built
  from a single node the speed becomes \<open>-1\<close>, and likewise the rest length.
\<close>

theorem setProperties_negative_speed_stored:
  "speed (setProperties [''speed'' \<mapsto> Number (- 1)] loneEngine) = - 1
   \<and> speed loneEngine = 1 / 100
   \<and> springRestLength (setProperties [''springRestLength'' \<mapsto> Number (- 1)] loneEngine) = - 1
   \<and> springRestLength loneEngine = 10"
  by (simp add: setProperties_def loneEngine_def)

text \<open>
  Claim C5, amended: a zero, NaN or absent value for \<open>springRestLength\<close> or
  \<open>speed\<close> leaves that field at its prior value, a value other than zero (negative
  ones too) is stored, each of the four fields is decided on its own, whatever the other
  three are, and the call always returns a state.
\<close>

theorem setProperties_rejects_only_falsy:
  "(falsy (props ''speed'') \<longrightarrow> speed (setProperties props s) = speed s)
   \<and> (falsy (props ''springRestLength'') \<longrightarrow>
        springRestLength (setProperties props s) = springRestLength s)
   \<and> (\<forall>r. r \<noteq> 0 \<and> props ''speed'' = Some (Number r) \<longrightarrow> speed (setProperties props s) = r)
   \<and> (\<forall>r. r \<noteq> 0 \<and> props ''springRestLength'' = Some (Number r) \<longrightarrow>
        springRestLength (setProperties props s) = r)
   \<and> (\<forall>r. r \<noteq> 0 \<and> props ''springDampening'' = Some (Number r) \<longrightarrow>
        springDampening (setProperties props s) = r)
   \<and> (\<forall>r. r \<noteq> 0 \<and> props ''charge'' = Some (Number r) \<longrightarrow> charge (setProperties props s) = r)"
  by (simp add: setProperties_def orElse_falsy)

theorem setProperties_rejects_only_falsy_witness:
  "falsy ([''speed'' \<mapsto> Number 0, ''charge'' \<mapsto> Number 500] ''speed'')
   \<and> speed (setProperties [''speed'' \<mapsto> Number 0, ''charge'' \<mapsto> Number 500] (initialFields 0 0)) = 1 / 100
   \<and> charge (setProperties [''speed'' \<mapsto> Number 0, ''charge'' \<mapsto> Number 500] (initialFields 0 0)) = 500
   \<and> falsy ([''speed'' \<mapsto> Number 0, ''charge'' \<mapsto> Number 500] ''springRestLength'')
   \<and> springRestLength (setProperties [''speed'' \<mapsto> Number 0, ''charge'' \<mapsto> Number 500] (initialFields 0 0)) = 10"
  using setProperties_rejects_only_falsy
    [of "[''speed'' \<mapsto> Number 0, ''charge'' \<mapsto> Number 500]" "initialFields 0 0"]
  by (simp add: initialFields_def)

text \<open>
  Claim C6: \<open>setProperties({charge: 500})\<close> changes the charge and nothing else, and
  any option that is absent or falsy leaves the current value of its field unchanged.
\<close>

theorem setProperties_partial_merge:
  "setProperties [''charge'' \<mapsto> Number 500] s = s\<lparr>charge := 500\<rparr>
   \<and> (falsy (props ''speed'') \<longrightarrow> speed (setProperties props s) = speed s)
   \<and> (falsy (props ''springDampening'') \<longrightarrow>
        springDampening (setProperties props s) = springDampening s)
   \<and> (falsy (props ''springRestLength'') \<longrightarrow>
        springRestLength (setProperties props s) = springRestLength s)
   \<and> (falsy (props ''charge'') \<longrightarrow> charge (setProperties props s) = charge s)
   \<and> graph (setProperties props s) = graph s
   \<and> positionsMatrix (setProperties props s) = positionsMatrix s
   \<and> kernel (setProperties props s) = kernel s"
  by (simp add: setProperties_def orElse_falsy)

theorem setProperties_partial_merge_witness:
  "falsy ([''charge'' \<mapsto> Number 500] ''speed'')
   \<and> falsy ([''charge'' \<mapsto> Number 500] ''springDampening'')
   \<and> falsy ([''charge'' \<mapsto> Number 500] ''springRestLength'')
   \<and> falsy ([''charge'' \<mapsto> Number 0] ''charge'')
   \<and> setProperties [''charge'' \<mapsto> Number 500] (initialFields 0 0) = (initialFields 0 0)\<lparr>charge := 500\<rparr>
   \<and> speed (setProperties [''charge'' \<mapsto> Number 500] (initialFields 0 0)) = 1 / 100
   \<and> springDampening (setProperties [''charge'' \<mapsto> Number 500] (initialFields 0 0)) = 1 / 10
   \<and> springRestLength (setProperties [''charge'' \<mapsto> Number 500] (initialFields 0 0)) = 10
   \<and> charge (setProperties [''charge'' \<mapsto> Number 0] (initialFields 0 0)) = 22500"
  using setProperties_partial_merge [of "initialFields 0 0" "[''charge'' \<mapsto> Number 500]"]
    setProperties_partial_merge [of "initialFields 0 0" "[''charge'' \<mapsto> Number 0]"]
  by (simp add: initialFields_def)

section \<open>Square matrices by linear index\<close>

lemma ceilSqrt_take: "takeWhile (\<lambda>k. k * k < n) [0..<n] = [0..<ceilSqrt n]"
proof -
  have "takeWhile (\<lambda>k. k * k < n) [0..<n] = take (ceilSqrt n) [0..<n]"
    unfolding ceilSqrt_def by (rule takeWhile_eq_take)
  moreover have "ceilSqrt n \<le> n"
    unfolding ceilSqrt_def using length_takeWhile_le [of "\<lambda>k. k * k < n" "[0..<n]"] by simp
  ultimately show ?thesis by (simp add: take_upt)
qed

lemma ceilSqrt_le: "ceilSqrt n \<le> n"
  unfolding ceilSqrt_def using length_takeWhile_le [of "\<lambda>k. k * k < n" "[0..<n]"] by simp

lemma ceilSqrt_below: "k < ceilSqrt n \<Longrightarrow> k * k < n"
proof -
  assume "k < ceilSqrt n"
  then have "k \<in> set (takeWhile (\<lambda>k. k * k < n) [0..<n])"
    by (simp add: ceilSqrt_take)
  then show ?thesis by (rule set_takeWhileD [THEN conjunct2])
qed

lemma ceilSqrt_square: "n \<le> ceilSqrt n * ceilSqrt n"
proof (cases "ceilSqrt n < n")
  case True
  then have "\<not> (\<lambda>k. k * k < n) ([0..<n] ! length (takeWhile (\<lambda>k. k * k < n) [0..<n]))"
    by (intro nth_length_takeWhile) (simp add: ceilSqrt_def)
  with True show ?thesis by (simp add: ceilSqrt_def)
next
  case False
  with ceilSqrt_le [of n] have "ceilSqrt n = n" by simp
  then show ?thesis by (cases n) simp_all
qed

lemma ceilSqrt_eq: "ceilSqrt n = nat \<lceil>sqrt (real n)\<rceil>"
proof (cases "ceilSqrt n")
  case 0
  with ceilSqrt_square [of n] show ?thesis by simp
next
  case (Suc m)
  have up: "sqrt (real n) \<le> real (ceilSqrt n)"
  proof -
    have "real n \<le> real (ceilSqrt n) * real (ceilSqrt n)"
      using ceilSqrt_square [of n] by (metis of_nat_le_iff of_nat_mult)
    then have "sqrt (real n) \<le> sqrt (real (ceilSqrt n) * real (ceilSqrt n))"
      by (rule real_sqrt_le_mono)
    then show ?thesis by simp
  qed
  have "m * m < n" using ceilSqrt_below [of m n] Suc by simp
  then have "real m * real m < real n"
    by (metis of_nat_less_iff of_nat_mult)
  then have "sqrt (real m * real m) < sqrt (real n)"
    by (rule real_sqrt_less_mono)
  then have lo: "real m < sqrt (real n)" by simp
  have "\<lceil>sqrt (real n)\<rceil> = int m + 1"
    using up lo Suc by (intro ceiling_unique) simp_all
  then show ?thesis using Suc by simp
qed

lemma ceilSqrt_0: "ceilSqrt 0 = 0"
  by (simp add: ceilSqrt_def)

lemma ceilSqrt_pos: "0 < n \<Longrightarrow> 0 < ceilSqrt n"
  using ceilSqrt_square [of n] by (cases "ceilSqrt n") simp_all

lemma matrixOf_length [simp]: "length (matrixOf S f) = S"
  by (simp add: matrixOf_def)

lemma matrixOf_row_length [simp]: "r < S \<Longrightarrow> length (matrixOf S f ! r) = S"
  by (simp add: matrixOf_def)

lemma matrixOf_nth [simp]: "r < S \<Longrightarrow> c < S \<Longrightarrow> matrixOf S f ! r ! c = f (r * S + c)"
  by (simp add: matrixOf_def)

lemma create3dMatrix_matrixOf: "create3dMatrix S S d = matrixOf S (\<lambda>_. d)"
  by (simp add: create3dMatrix_def matrixOf_def map_replicate_const)

lemma div_less_side: "k < S * S \<Longrightarrow> k div S < (S::nat)"
  by (simp add: less_mult_imp_div_less)

lemma matrixOf_update:
  assumes "k < S * S"
  shows "(matrixOf S f)[k div S := (matrixOf S f ! (k div S))[k mod S := v]] = matrixOf S (f(k := v))"
proof -
  have S: "0 < S" using assms by (cases S) simp_all
  have r: "k div S < S" using assms by (rule div_less_side)
  have c: "k mod S < S" using S by simp
  show ?thesis
  proof (rule nth_equalityI)
    show "length ((matrixOf S f)[k div S := (matrixOf S f ! (k div S))[k mod S := v]]) = length (matrixOf S (f(k := v)))"
      by simp
  next
    fix i assume "i < length ((matrixOf S f)[k div S := (matrixOf S f ! (k div S))[k mod S := v]])"
    then have i: "i < S" by simp
    show "(matrixOf S f)[k div S := (matrixOf S f ! (k div S))[k mod S := v]] ! i = matrixOf S (f(k := v)) ! i"
    proof (rule nth_equalityI)
      show "length ((matrixOf S f)[k div S := (matrixOf S f ! (k div S))[k mod S := v]] ! i) = length (matrixOf S (f(k := v)) ! i)"
        using i r by (cases "i = k div S") simp_all
    next
      fix j assume "j < length ((matrixOf S f)[k div S := (matrixOf S f ! (k div S))[k mod S := v]] ! i)"
      then have j: "j < S" using i r by (cases "i = k div S") simp_all
      have iff: "i * S + j = k \<longleftrightarrow> i = k div S \<and> j = k mod S"
      proof
        assume "i * S + j = k"
        then show "i = k div S \<and> j = k mod S" using j by auto
      next
        assume "i = k div S \<and> j = k mod S"
        then show "i * S + j = k" by simp
      qed
      show "(matrixOf S f)[k div S := (matrixOf S f ! (k div S))[k mod S := v]] ! i ! j = matrixOf S (f(k := v)) ! i ! j"
        using i j r c iff by (cases "i = k div S"; cases "j = k mod S") (simp_all add: nth_list_update)
    qed
  qed
qed

lemma coords_nat:
  "0 < S \<Longrightarrow> indexToMatrixCoordinates (int k) (int S) (int S) = (Fin (int (k div S)), Fin (int (k mod S)))"
  by (simp add: indexToMatrixCoordinates_def jsFloorDiv_def jsRem_def zdiv_int zmod_int sgn_if)

lemma setCell_matrixOf:
  assumes "k < S * S"
  shows "setCell (matrixOf S f) (Fin (int (k div S))) (Fin (int (k mod S))) v = Inr (matrixOf S (f(k := v)))"
proof -
  have S: "0 < S" using assms by (cases S) simp_all
  have r: "k div S < S" using assms by (rule div_less_side)
  have c: "k mod S < S" using S by simp
  show ?thesis using r c by (simp add: setCell_def matrixOf_update [OF assms])
qed

section \<open>The encoding loop\<close>

lemma fillNeighbours_matrixOf:
  "cursor + length nbs \<le> A * A \<Longrightarrow>
   fillNeighbours nodes P A nbs (cursor, matrixOf A f) =
     Inr (cursor + length nbs,
          matrixOf A (\<lambda>k. if cursor \<le> k \<and> k < cursor + length nbs
                           then neighbourCoords nodes P (nbs ! (k - cursor)) else f k))"
proof (induction nbs arbitrary: cursor f)
  case Nil
  have e: "(\<lambda>k. if cursor \<le> k \<and> k < cursor + length ([] :: nat list)
                then neighbourCoords nodes P ([] ! (k - cursor)) else f k) = f"
    by (auto simp: fun_eq_iff)
  show ?case unfolding e by simp
next
  case (Cons nb rest)
  then have lt: "cursor < A * A" and rest: "Suc cursor + length rest \<le> A * A" by simp_all
  have A: "0 < A" using lt by (cases A) simp_all
  have fn: "(\<lambda>k. if Suc cursor \<le> k \<and> k < Suc cursor + length rest
                  then neighbourCoords nodes P (rest ! (k - Suc cursor))
                  else (f(cursor := neighbourCoords nodes P nb)) k)
          = (\<lambda>k. if cursor \<le> k \<and> k < cursor + length (nb # rest)
                  then neighbourCoords nodes P ((nb # rest) ! (k - cursor)) else f k)"
    by (rule ext) (auto simp: nth_Cons' Suc_diff_le)
  have "fillNeighbours nodes P A (nb # rest) (cursor, matrixOf A f)
        = fillNeighbours nodes P A rest
            (Suc cursor, matrixOf A (f(cursor := neighbourCoords nodes P nb)))"
    by (simp add: coords_nat [OF A] setCell_matrixOf [OF lt] neighbourCoords_def [symmetric]
          del: fun_upd_apply)
  also have "\<dots> = Inr (Suc cursor + length rest,
       matrixOf A (\<lambda>k. if Suc cursor \<le> k \<and> k < Suc cursor + length rest
                  then neighbourCoords nodes P (rest ! (k - Suc cursor))
                  else (f(cursor := neighbourCoords nodes P nb)) k))"
    by (rule Cons.IH [OF rest])
  also have "\<dots> = Inr (cursor + length (nb # rest),
       matrixOf A (\<lambda>k. if cursor \<le> k \<and> k < cursor + length (nb # rest)
                  then neighbourCoords nodes P ((nb # rest) ! (k - cursor)) else f k))"
    unfolding fn by simp
  finally show ?case .
qed

lemma degreeSum_Cons [simp]: "degreeSum (n # ns) = length (neighbours n) + degreeSum ns"
  by (simp add: degreeSum_def)

lemma degreeSum_Nil [simp]: "degreeSum [] = 0"
  by (simp add: degreeSum_def)

lemma setCell_node:
  assumes "i < P * P"
  shows "setCell (matrixOf P f) (fst (indexToMatrixCoordinates (int i) (int P) (int P)))
           (snd (indexToMatrixCoordinates (int i) (int P) (int P))) v = Inr (matrixOf P (f(i := v)))"
proof -
  have P: "0 < P" using assms by (cases P) simp_all
  show ?thesis by (simp add: coords_nat [OF P] setCell_matrixOf [OF assms])
qed

lemma encodeFrom_matrixOf:
  "i + length rest \<le> P * P \<Longrightarrow> cur + degreeSum rest \<le> A * A \<Longrightarrow>
   encodeFrom nodes P A i rest
     \<lparr> adjMatrixNextFreeSpotIndex = cur, nodesM = matrixOf P fn,
       adjacencyM = matrixOf A fa, positionsM = matrixOf P fp \<rparr> =
   Inr \<lparr> adjMatrixNextFreeSpotIndex = cur + degreeSum rest,
         nodesM = matrixOf P (\<lambda>k. if i \<le> k \<and> k < i + length rest
                     then nodeCell A (cur + degreeSum (take (k - i) rest)) (rest ! (k - i))
                     else fn k),
         adjacencyM = matrixOf A (\<lambda>k. if cur \<le> k \<and> k < cur + degreeSum rest
                     then neighbourCoords nodes P (concat (map neighbours rest) ! (k - cur))
                     else fa k),
         positionsM = matrixOf P (\<lambda>k. if i \<le> k \<and> k < i + length rest
                     then (node_x (rest ! (k - i)), node_y (rest ! (k - i)))
                     else fp k) \<rparr>"
proof (induction rest arbitrary: i cur fn fa fp)
  case Nil
  have e: "(\<lambda>k. if i \<le> k \<and> k < i + length ([] :: node list)
                then nodeCell A (cur + degreeSum (take (k - i) [])) ([] ! (k - i)) else fn k) = fn"
    "(\<lambda>k. if cur \<le> k \<and> k < cur + degreeSum []
          then neighbourCoords nodes P (concat (map neighbours []) ! (k - cur)) else fa k) = fa"
    "(\<lambda>k. if i \<le> k \<and> k < i + length ([] :: node list)
          then (node_x ([] ! (k - i)), node_y ([] ! (k - i))) else fp k) = fp"
    by (auto simp: fun_eq_iff)
  show ?case unfolding e by simp
next
  case (Cons n rest)
  let ?d = "length (neighbours n)"
  from Cons.prems have i: "i < P * P" and irest: "Suc i + length rest \<le> P * P"
    and nbs: "cur + ?d \<le> A * A" and crest: "(cur + ?d) + degreeSum rest \<le> A * A"
    by simp_all
  let ?fn = "fn(i := nodeCell A cur n)"
  let ?fp = "fp(i := (node_x n, node_y n))"
  let ?fa = "\<lambda>k. if cur \<le> k \<and> k < cur + ?d
                  then neighbourCoords nodes P (neighbours n ! (k - cur)) else fa k"
  have e1: "(\<lambda>k. if Suc i \<le> k \<and> k < Suc i + length rest
                 then nodeCell A (cur + ?d + degreeSum (take (k - Suc i) rest)) (rest ! (k - Suc i))
                 else ?fn k)
          = (\<lambda>k. if i \<le> k \<and> k < i + length (n # rest)
                 then nodeCell A (cur + degreeSum (take (k - i) (n # rest))) ((n # rest) ! (k - i))
                 else fn k)"
    by (rule ext) (auto simp: nth_Cons' Suc_diff_le take_Cons' add.assoc)
  have e2: "(\<lambda>k. if Suc i \<le> k \<and> k < Suc i + length rest
                 then (node_x (rest ! (k - Suc i)), node_y (rest ! (k - Suc i)))
                 else ?fp k)
          = (\<lambda>k. if i \<le> k \<and> k < i + length (n # rest)
                 then (node_x ((n # rest) ! (k - i)), node_y ((n # rest) ! (k - i)))
                 else fp k)"
    by (rule ext) (auto simp: nth_Cons' Suc_diff_le)
  have e3: "(\<lambda>k. if cur + ?d \<le> k \<and> k < cur + ?d + degreeSum rest
                 then neighbourCoords nodes P (concat (map neighbours rest) ! (k - (cur + ?d)))
                 else ?fa k)
          = (\<lambda>k. if cur \<le> k \<and> k < cur + degreeSum (n # rest)
                 then neighbourCoords nodes P (concat (map neighbours (n # rest)) ! (k - cur))
                 else fa k)"
    by (rule ext) (auto simp: nth_append)
  have step: "encodeFrom nodes P A i (n # rest)
     \<lparr> adjMatrixNextFreeSpotIndex = cur, nodesM = matrixOf P fn,
       adjacencyM = matrixOf A fa, positionsM = matrixOf P fp \<rparr>
     = encodeFrom nodes P A (Suc i) rest
     \<lparr> adjMatrixNextFreeSpotIndex = cur + ?d, nodesM = matrixOf P ?fn,
       adjacencyM = matrixOf A ?fa, positionsM = matrixOf P ?fp \<rparr>"
    by (simp add: split_beta setCell_node [OF i] fillNeighbours_matrixOf [OF nbs]
          nodeCell_def [symmetric])
  have "encodeFrom nodes P A (Suc i) rest
     \<lparr> adjMatrixNextFreeSpotIndex = cur + ?d, nodesM = matrixOf P ?fn,
       adjacencyM = matrixOf A ?fa, positionsM = matrixOf P ?fp \<rparr>
     = Inr \<lparr> adjMatrixNextFreeSpotIndex = cur + ?d + degreeSum rest,
         nodesM = matrixOf P (\<lambda>k. if Suc i \<le> k \<and> k < Suc i + length rest
                 then nodeCell A (cur + ?d + degreeSum (take (k - Suc i) rest)) (rest ! (k - Suc i))
                 else ?fn k),
         adjacencyM = matrixOf A (\<lambda>k. if cur + ?d \<le> k \<and> k < cur + ?d + degreeSum rest
                 then neighbourCoords nodes P (concat (map neighbours rest) ! (k - (cur + ?d)))
                 else ?fa k),
         positionsM = matrixOf P (\<lambda>k. if Suc i \<le> k \<and> k < Suc i + length rest
                 then (node_x (rest ! (k - Suc i)), node_y (rest ! (k - Suc i)))
                 else ?fp k) \<rparr>"
    by (rule Cons.IH [OF irest crest])
  then show ?case
    unfolding step e1 e2 e3 by (simp add: add.assoc)
qed

lemma foldl_add_sum: "foldl (\<lambda>total current. total + current) a xs = a + sum_list (xs :: nat list)"
  by (induction xs arbitrary: a) simp_all

lemma totalNumberOfEdges_degreeSum: "totalNumberOfEdges nodes = degreeSum nodes"
  by (simp add: totalNumberOfEdges_def degreeSum_def foldl_add_sum)

lemma encodeGraph_closed: "encodeGraph nodes = Inr (encodingOf nodes)"
proof -
  let ?P = "ceilSqrt (length nodes)" and ?A = "ceilSqrt (degreeSum nodes)"
  have a: "0 + length nodes \<le> ?P * ?P" using ceilSqrt_square [of "length nodes"] by simp
  have b: "0 + degreeSum nodes \<le> ?A * ?A" using ceilSqrt_square [of "degreeSum nodes"] by simp
  show ?thesis
    unfolding encodeGraph_def totalNumberOfEdges_degreeSum Let_def create3dMatrix_matrixOf
      encodeFrom_matrixOf [OF a b] encodingOf_def
    by (simp cong: if_cong)
qed

lemma writeBack_matrixOf:
  "list_all (\<lambda>rc. fst rc < P \<and> snd rc < P) cells \<Longrightarrow>
   snd (writeBack (matrixOf P f) P cells ns) = None
   \<and> length (fst (writeBack (matrixOf P f) P cells ns)) = length ns
   \<and> (\<forall>j<length ns. fst (writeBack (matrixOf P f) P cells ns) ! j =
         (if j \<in> (\<lambda>rc. fst rc * P + snd rc) ` set cells
          then (ns ! j)\<lparr> node_x := fst (f j), node_y := snd (f j) \<rparr> else ns ! j))"
proof (induction cells arbitrary: ns)
  case Nil
  then show ?case by simp
next
  case (Cons cell cells)
  obtain row col where cell: "cell = (row, col)" by (cases cell)
  from Cons.prems cell have rc: "row < P" "col < P" and rest: "list_all (\<lambda>rc. fst rc < P \<and> snd rc < P) cells"
    by simp_all
  let ?k = "row * P + col"
  show ?case
  proof (cases "?k < length ns")
    case False
    then have "writeBack (matrixOf P f) P (cell # cells) ns = writeBack (matrixOf P f) P cells ns"
      by (simp add: cell)
    then show ?thesis using Cons.IH [OF rest, of ns] False by (auto simp: cell)
  next
    case True
    let ?ns = "ns[?k := (ns ! ?k)\<lparr> node_x := fst (f ?k), node_y := snd (f ?k) \<rparr>]"
    have "writeBack (matrixOf P f) P (cell # cells) ns = writeBack (matrixOf P f) P cells ?ns"
      using True rc by (simp add: cell Let_def)
    then show ?thesis using Cons.IH [OF rest, of ?ns] True
      by (auto simp: cell nth_list_update)
  qed
qed

lemma product_cells_all:
  "list_all (\<lambda>rc. fst rc < P \<and> snd rc < Q) (List.product [0..<P] [0..<Q])"
  by (auto simp: list_all_iff)

lemma product_cells_image:
  "j < P * P \<Longrightarrow> j \<in> (\<lambda>rc. fst rc * P + snd rc) ` set (List.product [0..<P] [0..<P])"
proof -
  assume j: "j < P * P"
  then have P: "0 < P" by (cases P) simp_all
  have "(j div P, j mod P) \<in> set (List.product [0..<P] [0..<P])"
    using j P by (simp add: div_less_side)
  moreover have "j = fst (j div P, j mod P) * P + snd (j div P, j mod P)" by simp
  ultimately show ?thesis by (rule rev_image_eqI)
qed

lemma decodePositions_matrixOf:
  assumes "0 < P" "length ns \<le> P * P"
  shows "decodePositions (matrixOf P f) ns =
           (map (\<lambda>j. (ns ! j)\<lparr> node_x := fst (f j), node_y := snd (f j) \<rparr>) [0..<length ns], None)"
proof -
  obtain row0 rest where m: "matrixOf P f = row0 # rest"
    using assms(1) by (cases "matrixOf P f") (simp_all add: matrixOf_def)
  have "row0 = matrixOf P f ! 0" by (simp add: m)
  then have l0: "length row0 = P" using assms(1) by simp
  have lm: "length (row0 # rest) = P" using m matrixOf_length [of P f] by simp
  let ?r = "writeBack (matrixOf P f) P (List.product [0..<P] [0..<P]) ns"
  have d: "decodePositions (matrixOf P f) ns = ?r"
    unfolding decodePositions_def m list.case lm l0 ..
  note wb = writeBack_matrixOf [OF product_cells_all, of P f ns]
  have "fst ?r = map (\<lambda>j. (ns ! j)\<lparr> node_x := fst (f j), node_y := snd (f j) \<rparr>) [0..<length ns]"
  proof (rule nth_equalityI)
    show "length (fst ?r) = length (map (\<lambda>j. (ns ! j)\<lparr> node_x := fst (f j), node_y := snd (f j) \<rparr>) [0..<length ns])"
      using wb by simp
  next
    fix j assume "j < length (fst ?r)"
    then have j: "j < length ns" using wb by simp
    then have "j < P * P" using assms(2) by simp
    then show "fst ?r ! j = map (\<lambda>j. (ns ! j)\<lparr> node_x := fst (f j), node_y := snd (f j) \<rparr>) [0..<length ns] ! j"
      using wb j product_cells_image [of j P] by simp
  qed
  moreover have "snd ?r = None" using wb by simp
  ultimately show ?thesis unfolding d by (simp add: prod_eq_iff)
qed

lemma concat_matrixOf_rows:
  "concat (map (\<lambda>r. map (\<lambda>c. f (r * S + c)) [0..<S]) [0..<R]) = map f [0..<R * S]"
proof (induction R)
  case 0
  show ?case by simp
next
  case (Suc R)
  have "[R * S..<S + R * S] = map (\<lambda>i. i + R * S) [0..<S]"
    by (rule map_add_upt [symmetric])
  then have row: "map f [R * S..<S + R * S] = map (\<lambda>c. f (R * S + c)) [0..<S]"
    by (simp only: map_map comp_def add.commute)
  have "[0..<S + R * S] = [0..<R * S] @ [R * S..<S + R * S]"
    using upt_add_eq_append [of 0 "R * S" S] by (simp only: add.commute add_0 zero_le)
  then have "map f [0..<Suc R * S] = map f [0..<R * S] @ map (\<lambda>c. f (R * S + c)) [0..<S]"
    by (simp only: mult_Suc map_append row)
  moreover have "concat (map (\<lambda>r. map (\<lambda>c. f (r * S + c)) [0..<S]) [0..<Suc R])
      = concat (map (\<lambda>r. map (\<lambda>c. f (r * S + c)) [0..<S]) [0..<R])
        @ map (\<lambda>c. f (R * S + c)) [0..<S]"
    by simp
  ultimately show ?case by (simp only: Suc)
qed

lemma concat_matrixOf: "concat (matrixOf S f) = map f [0..<S * S]"
  by (simp add: matrixOf_def concat_matrixOf_rows)

lemma matrixOf_cell: "k < S * S \<Longrightarrow> matrixOf S f ! (k div S) ! (k mod S) = f k"
proof -
  assume k: "k < S * S"
  then have S: "0 < S" by (cases S) simp_all
  show ?thesis using div_less_side [OF k] S by simp
qed

lemma degreeSum_append [simp]: "degreeSum (xs @ ys) = degreeSum xs + degreeSum ys"
  by (simp add: degreeSum_def)

lemma degreeSum_take_Suc:
  "i < length nodes \<Longrightarrow>
   degreeSum (take (Suc i) nodes) = degreeSum (take i nodes) + length (neighbours (nodes ! i))"
  by (simp add: take_Suc_conv_app_nth)

lemma degreeSum_take_le: "degreeSum (take i nodes) \<le> degreeSum nodes"
  by (metis append_take_drop_id degreeSum_append le_add1)

lemma length_concat_neighbours: "length (concat (map neighbours ns)) = degreeSum ns"
  by (induction ns) simp_all

lemma concat_neighbours_nth:
  assumes "i < length nodes" "j < length (neighbours (nodes ! i))"
  shows "concat (map neighbours nodes) ! (degreeSum (take i nodes) + j) = neighbours (nodes ! i) ! j"
proof -
  have "nodes = take i nodes @ nodes ! i # drop (Suc i) nodes"
    using assms(1) by (rule id_take_nth_drop)
  then have "concat (map neighbours nodes)
      = concat (map neighbours (take i nodes)) @ neighbours (nodes ! i)
        @ concat (map neighbours (drop (Suc i) nodes))"
    by (metis concat.simps(2) concat_append list.simps(9) map_append)
  then show ?thesis using assms(2)
    by (simp add: nth_append length_concat_neighbours)
qed

lemma nextCell_linear:
  "0 < A \<Longrightarrow> nextCell A (s div A, s mod A) = (Suc s div A, Suc s mod A)"
  using mod_less_divisor [of A s] by (auto simp: nextCell_def mod_Suc div_Suc simp del: mod_less_divisor)

lemma readRun_matrixOf:
  "s + d \<le> A * A \<Longrightarrow> readRun (matrixOf A f) (s div A, s mod A) d = Some (map f [s..<s + d])"
proof (induction d arbitrary: s)
  case 0
  show ?case by simp
next
  case (Suc d)
  then have s: "s < A * A" and rest: "Suc s + d \<le> A * A" by simp_all
  have A: "0 < A" using s by (cases A) simp_all
  have r: "s div A < A" using s by (rule div_less_side)
  have ih: "readRun (matrixOf A f) (Suc s div A, Suc s mod A) d = Some (map f [Suc s..<Suc s + d])"
    by (rule Suc.IH [OF rest])
  have c: "s mod A < A" using A by simp
  have step: "readRun (matrixOf A f) (s div A, s mod A) (Suc d)
      = (case readRun (matrixOf A f) (Suc s div A, Suc s mod A) d of
           None \<Rightarrow> None | Some vs \<Rightarrow> Some (f s # vs))"
    apply (subst readRun.simps)
    apply (simp only: fst_conv snd_conv matrixOf_length nextCell_linear [OF A]
        matrixOf_row_length [OF r] matrixOf_cell [OF s] r c)
    apply simp
    done
  have l: "[s..<s + Suc d] = s # [Suc s..<Suc s + d]"
    by (subst upt_rec) simp
  show ?case by (simp only: step ih l option.case list.map)
qed

lemma indexOf_member: "r \<in> nid ` set ns \<Longrightarrow> 0 \<le> indexOf ns r"
  by (induction ns) (auto simp: Let_def)

lemma indexOf_nth:
  "distinct (map nid ns) \<Longrightarrow> j < length ns \<Longrightarrow> indexOf ns (nid (ns ! j)) = int j"
proof (induction ns arbitrary: j)
  case Nil
  then show ?case by simp
next
  case (Cons n ns)
  show ?case
  proof (cases j)
    case 0
    then show ?thesis by simp
  next
    case (Suc j')
    with Cons.prems have j': "j' < length ns" and d: "distinct (map nid ns)"
      and ne: "nid n \<noteq> nid (ns ! j')" by auto
    show ?thesis using Cons.IH [OF d j'] ne Suc by (simp add: Let_def)
  qed
qed

lemma createGraphMatrices_closed:
  "createGraphMatrices s =
     Inr (s\<lparr> positionsMatrix := positionsM (encodingOf (graph s)),
            adjacencyMatrix := adjacencyM (encodingOf (graph s)),
            nodesMatrix := nodesM (encodingOf (graph s)) \<rparr>)"
  by (simp add: createGraphMatrices_def encodeGraph_closed)

lemma decode_encoded:
  assumes "length ns = length nodes"
  shows "fst (decodePositions (positionsM (encodingOf nodes)) ns)
           = map (\<lambda>j. (ns ! j)\<lparr> node_x := node_x (nodes ! j), node_y := node_y (nodes ! j) \<rparr>)
               [0..<length ns]
         \<and> (nodes \<noteq> [] \<longrightarrow> snd (decodePositions (positionsM (encodingOf nodes)) ns) = None)"
proof (cases "nodes = []")
  case True
  then show ?thesis using assms
    by (simp add: encodingOf_def ceilSqrt_0 matrixOf_def decodePositions_def)
next
  case False
  then have P: "0 < ceilSqrt (length nodes)" by (simp add: ceilSqrt_pos)
  have le: "length ns \<le> ceilSqrt (length nodes) * ceilSqrt (length nodes)"
    using ceilSqrt_square [of "length nodes"] assms by simp
  show ?thesis
    using assms by (simp add: encodingOf_def decodePositions_matrixOf [OF P le])
qed

section \<open>Theorems about the encoding\<close>

text \<open>
  Claim C3: encoding a graph with \<open>_createGraphMatrices\<close> and then running the
  write-back loop on the position matrix, left as the encoding made it, gives every node
  its original \<open>(x, y)\<close>. The encoding never fails; the nodes after the write-back
  are the nodes before it; on a graph with at least one node the write-back raises
  nothing; and the write-back restores the original positions from the matrix alone,
  also onto nodes \<open>ns\<close> whose positions were changed in between.
\<close>

theorem encode_decode_roundtrip:
  "\<exists>s'. createGraphMatrices s = Inr s'
      \<and> graph s' = graph s
      \<and> fst (decodePositions (positionsMatrix s') (graph s')) = graph s
      \<and> (graph s \<noteq> [] \<longrightarrow> snd (decodePositions (positionsMatrix s') (graph s')) = None)
      \<and> (length ns = length (graph s) \<longrightarrow>
           map (\<lambda>n. (node_x n, node_y n)) (fst (decodePositions (positionsMatrix s') ns))
           = map (\<lambda>n. (node_x n, node_y n)) (graph s))"
proof -
  have same: "fst (decodePositions (positionsM (encodingOf (graph s))) (graph s)) = graph s"
    using decode_encoded [of "graph s" "graph s"] by (simp add: map_nth)
  have ok: "graph s \<noteq> [] \<longrightarrow> snd (decodePositions (positionsM (encodingOf (graph s))) (graph s)) = None"
    using decode_encoded [of "graph s" "graph s"] by simp
  have other: "map (\<lambda>n. (node_x n, node_y n)) (fst (decodePositions (positionsM (encodingOf (graph s))) ns))
           = map (\<lambda>n. (node_x n, node_y n)) (graph s)" if "length ns = length (graph s)"
    using decode_encoded [OF that] that by (auto intro: nth_equalityI)
  show ?thesis
    using same ok other by (simp add: createGraphMatrices_closed)
qed

theorem encode_decode_roundtrip_witness:
  "graph ((initialFields 0 0)\<lparr>graph := sampleNodes\<rparr>) \<noteq> []
   \<and> length (map (\<lambda>n. n\<lparr>node_x := 0, node_y := 0\<rparr>) sampleNodes)
       = length (graph ((initialFields 0 0)\<lparr>graph := sampleNodes\<rparr>))
   \<and> (\<exists>s'. createGraphMatrices ((initialFields 0 0)\<lparr>graph := sampleNodes\<rparr>) = Inr s'
        \<and> fst (decodePositions (positionsMatrix s') (graph s')) = sampleNodes
        \<and> snd (decodePositions (positionsMatrix s') (graph s')) = None
        \<and> map (\<lambda>n. (node_x n, node_y n))
             (fst (decodePositions (positionsMatrix s')
                (map (\<lambda>n. n\<lparr>node_x := 0, node_y := 0\<rparr>) sampleNodes)))
           = [(1, 2), (3, 4), (5, 6)])"
  using encode_decode_roundtrip
    [of "(initialFields 0 0)\<lparr>graph := sampleNodes\<rparr>"
        "map (\<lambda>n. n\<lparr>node_x := 0, node_y := 0\<rparr>) sampleNodes"]
  by (auto simp: sampleNodes_def)

section \<open>Degree accounting and adjacency runs\<close>

lemma nodesM_cell:
  assumes "i < length nodes"
  shows "nodesM (encodingOf nodes) ! (i div ceilSqrt (length nodes)) ! (i mod ceilSqrt (length nodes))
         = nodeCell (ceilSqrt (degreeSum nodes)) (degreeSum (take i nodes)) (nodes ! i)"
proof -
  have "i < ceilSqrt (length nodes) * ceilSqrt (length nodes)"
    using assms ceilSqrt_square [of "length nodes"] by simp
  then show ?thesis using assms by (simp add: encodingOf_def matrixOf_cell)
qed

lemma positionsM_cell:
  assumes "i < length nodes"
  shows "positionsM (encodingOf nodes) ! (i div ceilSqrt (length nodes)) ! (i mod ceilSqrt (length nodes))
         = (node_x (nodes ! i), node_y (nodes ! i))"
proof -
  have "i < ceilSqrt (length nodes) * ceilSqrt (length nodes)"
    using assms ceilSqrt_square [of "length nodes"] by simp
  then show ?thesis using assms by (simp add: encodingOf_def matrixOf_cell)
qed

lemma adjacencyM_cell:
  assumes "k < ceilSqrt (degreeSum nodes) * ceilSqrt (degreeSum nodes)"
  shows "adjacencyM (encodingOf nodes) ! (k div ceilSqrt (degreeSum nodes)) ! (k mod ceilSqrt (degreeSum nodes))
         = (if k < degreeSum nodes
            then neighbourCoords nodes (ceilSqrt (length nodes)) (concat (map neighbours nodes) ! k)
            else (Fin (- 1), Fin (- 1)))"
  using assms by (simp add: encodingOf_def matrixOf_cell)

lemma recordedDegree_nodeCell [simp]: "recordedDegree (nodeCell A start n) = length (neighbours n)"
  by (simp add: recordedDegree_def nodeCell_def)

lemma recordedDegree_sentinel [simp]: "recordedDegree (Fin (- 1), Fin (- 1), Fin (- 1)) = 0"
  by (simp add: recordedDegree_def)

lemma upt_split: "n \<le> m \<Longrightarrow> [0..<m] = [0..<n] @ [n..<m]"
  using upt_add_eq_append [of 0 n "m - n"] by simp

lemma recordedDegree_sum:
  "sum_list (map recordedDegree (concat (nodesM (encodingOf nodes)))) = degreeSum nodes"
proof -
  let ?P = "ceilSqrt (length nodes)" and ?N = "length nodes"
  let ?f = "\<lambda>k. if k < ?N
              then nodeCell (ceilSqrt (degreeSum nodes)) (degreeSum (take k nodes)) (nodes ! k)
              else (Fin (- 1), Fin (- 1), Fin (- 1))"
  have split: "[0..<?P * ?P] = [0..<?N] @ [?N..<?P * ?P]"
    using ceilSqrt_square [of ?N] by (rule upt_split)
  have a: "map (recordedDegree \<circ> ?f) [0..<?N] = map (\<lambda>n. length (neighbours n)) nodes"
    by (rule nth_equalityI) simp_all
  have b: "map (recordedDegree \<circ> ?f) [?N..<?P * ?P] = map (\<lambda>_. 0) [?N..<?P * ?P]"
    by (rule map_cong) simp_all
  have "sum_list (map recordedDegree (concat (nodesM (encodingOf nodes))))
      = sum_list (map (recordedDegree \<circ> ?f) [0..<?P * ?P])"
    by (simp add: encodingOf_def concat_matrixOf)
  also have "\<dots> = sum_list (map (\<lambda>n. length (neighbours n)) nodes) + sum_list (map (\<lambda>_. 0) [?N..<?P * ?P])"
    by (simp only: split map_append sum_list_append a b)
  also have "\<dots> = degreeSum nodes"
    by (simp add: degreeSum_def)
  finally show ?thesis .
qed

lemma closedGraph_neighbour:
  "closedGraph nodes \<Longrightarrow> k < degreeSum nodes \<Longrightarrow> concat (map neighbours nodes) ! k \<in> nid ` set nodes"
proof -
  assume c: "closedGraph nodes" and k: "k < degreeSum nodes"
  have "concat (map neighbours nodes) ! k \<in> set (concat (map neighbours nodes))"
    using k by (intro nth_mem) (simp add: length_concat_neighbours)
  then show ?thesis using c by (auto simp: closedGraph_def list_all_iff)
qed

lemma neighbourCoords_member:
  assumes "r \<in> nid ` set nodes"
  shows "neighbourCoords nodes (ceilSqrt (length nodes)) r \<noteq> (Fin (- 1), Fin (- 1))"
proof -
  have "nodes \<noteq> []" using assms by auto
  then have P: "0 < ceilSqrt (length nodes)" by (simp add: ceilSqrt_pos)
  obtain j where j: "indexOf nodes r = int j"
    using indexOf_member [OF assms] by (metis nat_0_le)
  show ?thesis by (simp add: neighbourCoords_def j coords_nat [OF P])
qed

lemma populatedCells_closed:
  assumes "closedGraph nodes"
  shows "populatedCells (adjacencyM (encodingOf nodes)) = degreeSum nodes"
proof -
  let ?A = "ceilSqrt (degreeSum nodes)" and ?E = "degreeSum nodes"
  let ?f = "\<lambda>k. if k < ?E
              then neighbourCoords nodes (ceilSqrt (length nodes)) (concat (map neighbours nodes) ! k)
              else (Fin (- 1), Fin (- 1))"
  let ?p = "\<lambda>cell. cell \<noteq> (Fin (- 1), Fin (- 1))"
  have split: "[0..<?A * ?A] = [0..<?E] @ [?E..<?A * ?A]"
    using ceilSqrt_square [of ?E] by (rule upt_split)
  have a: "filter ?p (map ?f [0..<?E]) = map ?f [0..<?E]"
    using closedGraph_neighbour [OF assms] neighbourCoords_member
    by (intro filter_True) auto
  have b: "filter ?p (map ?f [?E..<?A * ?A]) = []"
    by (simp add: filter_empty_conv)
  have "populatedCells (adjacencyM (encodingOf nodes)) = length (filter ?p (map ?f [0..<?A * ?A]))"
    by (simp add: populatedCells_def encodingOf_def concat_matrixOf)
  also have "\<dots> = length (map ?f [0..<?E])"
    by (simp only: split map_append filter_append a b append_Nil2)
  finally show ?thesis by simp
qed

lemma readNeighbours_zero: "readNeighbours adj (a, b, Fin 0) = Some []"
  by (cases a; cases b) simp_all

lemma run_within:
  assumes "i < length nodes"
  shows "degreeSum (take i nodes) + length (neighbours (nodes ! i)) \<le> degreeSum nodes"
  using degreeSum_take_le [of "Suc i" nodes] degreeSum_take_Suc [OF assms] by simp

lemma readNeighbours_encoded:
  assumes i: "i < length nodes"
  shows "readNeighbours (adjacencyM (encodingOf nodes))
           (nodeCell (ceilSqrt (degreeSum nodes)) (degreeSum (take i nodes)) (nodes ! i))
         = Some (map (neighbourCoords nodes (ceilSqrt (length nodes))) (neighbours (nodes ! i)))"
proof (cases "neighbours (nodes ! i) = []")
  case True
  then show ?thesis by (simp add: nodeCell_def readNeighbours_zero)
next
  case False
  let ?A = "ceilSqrt (degreeSum nodes)" and ?E = "degreeSum nodes"
  let ?s = "degreeSum (take i nodes)" and ?d = "length (neighbours (nodes ! i))"
  let ?f = "\<lambda>k. if k < ?E
              then neighbourCoords nodes (ceilSqrt (length nodes)) (concat (map neighbours nodes) ! k)
              else (Fin (- 1), Fin (- 1))"
  have d: "0 < ?d" using False by simp
  have within: "?s + ?d \<le> ?E" using i by (rule run_within)
  then have E: "0 < ?E" using d by linarith
  then have A: "0 < ?A" by (rule ceilSqrt_pos)
  have fit: "?s + ?d \<le> ?A * ?A" using within ceilSqrt_square [of ?E] by simp
  have adj: "adjacencyM (encodingOf nodes) = matrixOf ?A ?f" by (simp add: encodingOf_def)
  have "readNeighbours (matrixOf ?A ?f) (nodeCell ?A ?s (nodes ! i))
        = readRun (matrixOf ?A ?f) (?s div ?A, ?s mod ?A) ?d"
    using d by (simp add: nodeCell_def coords_nat [OF A])
  also have "\<dots> = Some (map ?f [?s..<?s + ?d])"
    using fit by (rule readRun_matrixOf)
  also have "map ?f [?s..<?s + ?d]
        = map (neighbourCoords nodes (ceilSqrt (length nodes))) (neighbours (nodes ! i))"
  proof (rule nth_equalityI)
    show "length (map ?f [?s..<?s + ?d])
        = length (map (neighbourCoords nodes (ceilSqrt (length nodes))) (neighbours (nodes ! i)))"
      by simp
  next
    fix j assume "j < length (map ?f [?s..<?s + ?d])"
    then have j: "j < ?d" by simp
    then have "?s + j < ?E" using within by simp
    then show "map ?f [?s..<?s + ?d] ! j
        = map (neighbourCoords nodes (ceilSqrt (length nodes))) (neighbours (nodes ! i)) ! j"
      using j concat_neighbours_nth [OF i j] by simp
  qed
  finally show ?thesis unfolding adj .
qed

lemma neighbourCoords_distinct:
  assumes "distinct (map nid nodes)" "j < length nodes"
  shows "neighbourCoords nodes (ceilSqrt (length nodes)) (nid (nodes ! j))
         = (Fin (int (j div ceilSqrt (length nodes))), Fin (int (j mod ceilSqrt (length nodes))))"
proof -
  have "0 < length nodes" using assms(2) by (cases nodes) simp_all
  then have P: "0 < ceilSqrt (length nodes)" by (rule ceilSqrt_pos)
  show ?thesis
    by (simp add: neighbourCoords_def indexOf_nth [OF assms] coords_nat [OF P])
qed

text \<open>
  Claim C4: after encoding any graph, the degree recorded in the node-matrix cell of every
  node is the node's number of neighbours; the run of the node at index \<open>i\<close> starts
  at the coordinates of the linear index \<open>degreeSum (take i nodes)\<close>, which is the
  end of the run before it, so that the runs neither overlap nor leave a gap; the sum of
  the recorded degrees is the final value of the cursor, the number of directed neighbour
  links; the cells of the adjacency matrix below that linear index hold one neighbour link
  each, in order, and the cells from it on keep the initial \<open>(-1, -1)\<close>; and when
  every neighbour is a node of the graph, exactly that many cells differ from the initial
  value.
\<close>

theorem degree_accounting:
  "\<exists>enc. encodeGraph nodes = Inr enc
     \<and> (\<forall>i<length nodes.
          snd (snd (nodesM enc ! (i div ceilSqrt (length nodes)) ! (i mod ceilSqrt (length nodes))))
            = Fin (int (length (neighbours (nodes ! i))))
          \<and> (fst (nodesM enc ! (i div ceilSqrt (length nodes)) ! (i mod ceilSqrt (length nodes))),
              fst (snd (nodesM enc ! (i div ceilSqrt (length nodes)) ! (i mod ceilSqrt (length nodes)))))
            = indexToMatrixCoordinates (int (degreeSum (take i nodes)))
                (int (ceilSqrt (degreeSum nodes))) (int (ceilSqrt (degreeSum nodes)))
          \<and> degreeSum (take (Suc i) nodes)
            = degreeSum (take i nodes) + length (neighbours (nodes ! i)))
     \<and> sum_list (map recordedDegree (concat (nodesM enc))) = adjMatrixNextFreeSpotIndex enc
     \<and> adjMatrixNextFreeSpotIndex enc = degreeSum nodes
     \<and> (\<forall>k<ceilSqrt (degreeSum nodes) * ceilSqrt (degreeSum nodes).
          adjacencyM enc ! (k div ceilSqrt (degreeSum nodes)) ! (k mod ceilSqrt (degreeSum nodes))
            = (if k < degreeSum nodes
               then neighbourCoords nodes (ceilSqrt (length nodes)) (concat (map neighbours nodes) ! k)
               else (Fin (- 1), Fin (- 1))))
     \<and> (closedGraph nodes \<longrightarrow> populatedCells (adjacencyM enc) = degreeSum nodes)"
proof -
  have a: "\<forall>i<length nodes.
          snd (snd (nodesM (encodingOf nodes) ! (i div ceilSqrt (length nodes)) ! (i mod ceilSqrt (length nodes))))
            = Fin (int (length (neighbours (nodes ! i))))
          \<and> (fst (nodesM (encodingOf nodes) ! (i div ceilSqrt (length nodes)) ! (i mod ceilSqrt (length nodes))),
              fst (snd (nodesM (encodingOf nodes) ! (i div ceilSqrt (length nodes)) ! (i mod ceilSqrt (length nodes)))))
            = indexToMatrixCoordinates (int (degreeSum (take i nodes)))
                (int (ceilSqrt (degreeSum nodes))) (int (ceilSqrt (degreeSum nodes)))
          \<and> degreeSum (take (Suc i) nodes)
            = degreeSum (take i nodes) + length (neighbours (nodes ! i))"
    by (simp add: nodesM_cell nodeCell_def degreeSum_take_Suc)
  have b: "sum_list (map recordedDegree (concat (nodesM (encodingOf nodes))))
      = adjMatrixNextFreeSpotIndex (encodingOf nodes)"
    by (simp add: recordedDegree_sum) (simp add: encodingOf_def)
  have c: "adjMatrixNextFreeSpotIndex (encodingOf nodes) = degreeSum nodes"
    by (simp add: encodingOf_def)
  have d: "\<forall>k<ceilSqrt (degreeSum nodes) * ceilSqrt (degreeSum nodes).
          adjacencyM (encodingOf nodes) ! (k div ceilSqrt (degreeSum nodes)) ! (k mod ceilSqrt (degreeSum nodes))
            = (if k < degreeSum nodes
               then neighbourCoords nodes (ceilSqrt (length nodes)) (concat (map neighbours nodes) ! k)
               else (Fin (- 1), Fin (- 1)))"
    using adjacencyM_cell by blast
  have e: "closedGraph nodes \<longrightarrow> populatedCells (adjacencyM (encodingOf nodes)) = degreeSum nodes"
    by (simp add: populatedCells_closed)
  show ?thesis
    unfolding encodeGraph_closed using a b c d e by blast
qed

text \<open>
  Claim C8: with \<open>P = ceilSqrt N\<close>, the node at linear index \<open>i\<close> is stored at
  \<open>(i div P, i mod P)\<close>, which is what \<open>_indexToMatrixCoordinates\<close> returns, in
  the position matrix and in the node matrix, and \<open>degree\<close> sequential row-major
  reads of the adjacency matrix from the recorded \<open>(adjRow, adjCol)\<close> on return the
  coordinates of the node's neighbours, in the order of its neighbour list. In a graph
  whose node objects are pairwise different, the coordinates stored for a neighbour are
  the cell of that neighbour.
\<close>

theorem neighbour_run_recovery:
  "\<exists>enc. encodeGraph nodes = Inr enc
     \<and> length (positionsM enc) = ceilSqrt (length nodes)
     \<and> length (nodesM enc) = ceilSqrt (length nodes)
     \<and> length (adjacencyM enc) = ceilSqrt (degreeSum nodes)
     \<and> (\<forall>i<length nodes.
          indexToMatrixCoordinates (int i) (int (ceilSqrt (length nodes))) (int (ceilSqrt (length nodes)))
            = (Fin (int (i div ceilSqrt (length nodes))), Fin (int (i mod ceilSqrt (length nodes))))
          \<and> positionsM enc ! (i div ceilSqrt (length nodes)) ! (i mod ceilSqrt (length nodes))
            = (node_x (nodes ! i), node_y (nodes ! i))
          \<and> snd (snd (nodesM enc ! (i div ceilSqrt (length nodes)) ! (i mod ceilSqrt (length nodes))))
            = Fin (int (length (neighbours (nodes ! i))))
          \<and> readNeighbours (adjacencyM enc)
               (nodesM enc ! (i div ceilSqrt (length nodes)) ! (i mod ceilSqrt (length nodes)))
            = Some (map (neighbourCoords nodes (ceilSqrt (length nodes))) (neighbours (nodes ! i))))
     \<and> (distinct (map nid nodes) \<longrightarrow>
          (\<forall>j<length nodes.
             neighbourCoords nodes (ceilSqrt (length nodes)) (nid (nodes ! j))
             = (Fin (int (j div ceilSqrt (length nodes))), Fin (int (j mod ceilSqrt (length nodes))))))"
proof -
  have l: "length (positionsM (encodingOf nodes)) = ceilSqrt (length nodes)"
    "length (nodesM (encodingOf nodes)) = ceilSqrt (length nodes)"
    "length (adjacencyM (encodingOf nodes)) = ceilSqrt (degreeSum nodes)"
    by (simp_all add: encodingOf_def)
  have a: "indexToMatrixCoordinates (int i) (int (ceilSqrt (length nodes))) (int (ceilSqrt (length nodes)))
            = (Fin (int (i div ceilSqrt (length nodes))), Fin (int (i mod ceilSqrt (length nodes))))
          \<and> positionsM (encodingOf nodes) ! (i div ceilSqrt (length nodes)) ! (i mod ceilSqrt (length nodes))
            = (node_x (nodes ! i), node_y (nodes ! i))
          \<and> snd (snd (nodesM (encodingOf nodes) ! (i div ceilSqrt (length nodes)) ! (i mod ceilSqrt (length nodes))))
            = Fin (int (length (neighbours (nodes ! i))))
          \<and> readNeighbours (adjacencyM (encodingOf nodes))
               (nodesM (encodingOf nodes) ! (i div ceilSqrt (length nodes)) ! (i mod ceilSqrt (length nodes)))
            = Some (map (neighbourCoords nodes (ceilSqrt (length nodes))) (neighbours (nodes ! i)))"
    if i: "i < length nodes" for i
  proof -
    have "0 < length nodes" using i by (cases nodes) simp_all
    then have P: "0 < ceilSqrt (length nodes)" by (rule ceilSqrt_pos)
    show ?thesis
      using i by (simp add: coords_nat [OF P] positionsM_cell nodesM_cell readNeighbours_encoded)
        (simp add: nodeCell_def)
  qed
  have b: "distinct (map nid nodes) \<longrightarrow>
          (\<forall>j<length nodes.
             neighbourCoords nodes (ceilSqrt (length nodes)) (nid (nodes ! j))
             = (Fin (int (j div ceilSqrt (length nodes))), Fin (int (j mod ceilSqrt (length nodes)))))"
    by (simp add: neighbourCoords_distinct)
  show ?thesis
    unfolding encodeGraph_closed using l a b by blast
qed

section \<open>The theorems at the sample graph\<close>

lemma ceilSqrt_3: "ceilSqrt 3 = 2"
  by code_simp

lemma ceilSqrt_4: "ceilSqrt 4 = 2"
  by code_simp

lemma sample_closed: "closedGraph sampleNodes"
  by (simp add: closedGraph_def sampleNodes_def)

lemma sample_degreeSum: "degreeSum sampleNodes = 4"
  by (simp add: degreeSum_def sampleNodes_def)

lemma sample_encoding:
  "encodeGraph sampleNodes = Inr
    \<lparr> adjMatrixNextFreeSpotIndex = 4,
      nodesM = [[(Fin 0, Fin 0, Fin 1), (Fin 0, Fin 1, Fin 2)],
                [(Fin 1, Fin 1, Fin 1), (Fin (- 1), Fin (- 1), Fin (- 1))]],
      adjacencyM = [[(Fin 0, Fin 1), (Fin 0, Fin 0)], [(Fin 1, Fin 0), (Fin 0, Fin 1)]],
      positionsM = [[(1, 2), (3, 4)], [(5, 6), (- 1, - 1)]] \<rparr>"
  by code_simp

lemma sample_length: "length sampleNodes = 3"
  by (simp add: sampleNodes_def)

theorem degree_accounting_witness:
  "closedGraph sampleNodes
   \<and> (1::nat) < length sampleNodes
   \<and> (3::nat) < ceilSqrt (degreeSum sampleNodes) * ceilSqrt (degreeSum sampleNodes)
   \<and> (\<exists>enc. encodeGraph sampleNodes = Inr enc
        \<and> nodesM enc ! 0 ! 1 = (Fin 0, Fin 1, Fin 2)
        \<and> sum_list (map recordedDegree (concat (nodesM enc))) = 4
        \<and> adjMatrixNextFreeSpotIndex enc = 4
        \<and> adjacencyM enc ! 1 ! 1 = (Fin 0, Fin 1)
        \<and> populatedCells (adjacencyM enc) = 4)"
  using degree_accounting [of sampleNodes] sample_closed
  by (simp add: sample_encoding sample_length sample_degreeSum ceilSqrt_3 ceilSqrt_4
      recordedDegree_def populatedCells_def)

lemma sample_read:
  "readNeighbours [[(Fin 0, Fin 1), (Fin 0, Fin 0)], [(Fin 1, Fin 0), (Fin 0, Fin 1)]]
     (Fin 0, Fin 1, Fin 2) = Some [(Fin 0, Fin 0), (Fin 1, Fin 0)]"
  by code_simp

theorem neighbour_run_recovery_witness:
  "(1::nat) < length sampleNodes
   \<and> distinct (map nid sampleNodes)
   \<and> (\<exists>enc. encodeGraph sampleNodes = Inr enc
        \<and> positionsM enc ! 0 ! 1 = (3, 4)
        \<and> nodesM enc ! 0 ! 1 = (Fin 0, Fin 1, Fin 2)
        \<and> readNeighbours (adjacencyM enc) (nodesM enc ! 0 ! 1) = Some [(Fin 0, Fin 0), (Fin 1, Fin 0)])
   \<and> neighbourCoords sampleNodes (ceilSqrt (length sampleNodes)) 12 = (Fin 1, Fin 0)"
proof -
  have d: "distinct (map nid sampleNodes)" by (simp add: sampleNodes_def)
  have n: "nid (sampleNodes ! 2) = 12" by (simp add: sampleNodes_def)
  have "neighbourCoords sampleNodes (ceilSqrt (length sampleNodes)) (nid (sampleNodes ! 2))
        = (Fin 1, Fin 0)"
    using neighbour_run_recovery [of sampleNodes] d
    by (simp add: sample_encoding sample_length ceilSqrt_3)
  then show ?thesis
    using neighbour_run_recovery [of sampleNodes] d
    by (simp add: sample_encoding sample_length n sample_read del: readNeighbours.simps)
qed

section \<open>The tick\<close>



lemma tick_setProperties:
  "tick fadd (setProperties props s) = setProperties props (tick fadd s)"
  by (simp add: tick_def computeNextPositions_def setProperties_def Let_def
      split: option.splits sum.splits prod.splits)





lemma tick_parameters:
  "speed (tick fadd s) = speed s \<and> charge (tick fadd s) = charge s
   \<and> springRestLength (tick fadd s) = springRestLength s
   \<and> springDampening (tick fadd s) = springDampening s
   \<and> nodesMatrix (tick fadd s) = nodesMatrix s
   \<and> adjacencyMatrix (tick fadd s) = adjacencyMatrix s"
  by (simp add: tick_def computeNextPositions_def Let_def split: option.splits sum.splits prod.splits)







section \<open>setGraph\<close>

lemma randomiseFrom_length [simp]: "length (randomiseFrom rnd w h i ns) = length ns"
  by (induction ns arbitrary: i) simp_all

lemma randomiseFrom_nth:
  "j < length ns \<Longrightarrow>
   randomiseFrom rnd w h i ns ! j =
     (ns ! j)\<lparr> node_x := w / 2 + (100 * rnd (2 * (i + j))) - 50,
               node_y := h / 2 + (100 * rnd (2 * (i + j) + 1) - 50),
               isFixed := False \<rparr>"
proof (induction ns arbitrary: i j)
  case Nil
  then show ?case by simp
next
  case (Cons n ns)
  show ?case
  proof (cases j)
    case 0
    then show ?thesis by simp
  next
    case (Suc j')
    with Cons.prems have "j' < length ns" by simp
    from Cons.IH [OF this, of "i + 1"] Suc show ?thesis by simp
  qed
qed

lemma randomiseFrom_same:
  "map (\<lambda>n. (nid n, neighbours n)) g = map (\<lambda>n. (nid n, neighbours n)) g' \<Longrightarrow>
   randomiseFrom rnd w h i g = randomiseFrom rnd w h i g'"
proof (induction g arbitrary: g' i)
  case Nil
  then show ?case by simp
next
  case (Cons n ns)
  then obtain n' ns' where g': "g' = n' # ns'" by (cases g') auto
  with Cons.prems have same: "nid n = nid n'" "neighbours n = neighbours n'"
    and rest: "map (\<lambda>n. (nid n, neighbours n)) ns = map (\<lambda>n. (nid n, neighbours n)) ns'"
    by simp_all
  have "n\<lparr> node_x := a, node_y := b, isFixed := False \<rparr> = n'\<lparr> node_x := a, node_y := b, isFixed := False \<rparr>"
    for a b using same by (cases n; cases n') simp
  then show ?case using Cons.IH [OF rest] by (simp add: g')
qed

lemma setGraph_closed:
  "setGraph rnd g s =
     Inr (s\<lparr> graph := randomiseFrom rnd (width s) (height s) 0 g,
            positionsMatrix := positionsM (encodingOf (randomiseFrom rnd (width s) (height s) 0 g)),
            adjacencyMatrix := adjacencyM (encodingOf (randomiseFrom rnd (width s) (height s) 0 g)),
            nodesMatrix := nodesM (encodingOf (randomiseFrom rnd (width s) (height s) 0 g)),
            kernel := Some \<lparr> outputSize = ceilSqrt (length g), constants_speed = 3,
                                compiled = None \<rparr> \<rparr>)"
  by (simp add: setGraph_def setUpGPU_def createGraphMatrices_closed createKernel_def)
    (simp add: encodingOf_def)


text \<open>
  Claim C9: \<open>setGraph\<close> discards the state of the nodes it is given. The node at
  index \<open>i\<close> of the graph it stores has its identity and neighbours, the position
  \<open>x = width / 2 + 100 * rnd (2 * i) - 50\<close> and
  \<open>y = height / 2 + (100 * rnd (2 * i + 1) - 50)\<close> drawn from \<open>Math.random()\<close>,
  and the fixed flag false; the position matrix holds that new position; and two graphs
  that differ only in the positions and fixed flags of their nodes lead to the same engine
  state, so that nothing of the former positions and flags reaches the encoding. When
  every draw of \<open>Math.random()\<close> lies in \<open>[0, 1)\<close>, the position is within 50 of
  the canvas centre \<open>(width / 2, height / 2)\<close> in each coordinate.
\<close>

theorem setGraph_discards_node_state:
  assumes "\<forall>k. 0 \<le> rnd k \<and> rnd k < 1"
  shows "\<exists>s'. setGraph rnd g s = Inr s'
      \<and> length (graph s') = length g
      \<and> (\<forall>i<length g.
            nid (graph s' ! i) = nid (g ! i)
            \<and> neighbours (graph s' ! i) = neighbours (g ! i)
            \<and> node_x (graph s' ! i) = width s / 2 + (100 * rnd (2 * i)) - 50
            \<and> node_y (graph s' ! i) = height s / 2 + (100 * rnd (2 * i + 1) - 50)
            \<and> \<bar>node_x (graph s' ! i) - width s / 2\<bar> \<le> 50
            \<and> \<bar>node_y (graph s' ! i) - height s / 2\<bar> \<le> 50
            \<and> \<not> isFixed (graph s' ! i)
            \<and> positionsMatrix s' ! (i div ceilSqrt (length g)) ! (i mod ceilSqrt (length g))
                = (node_x (graph s' ! i), node_y (graph s' ! i)))
      \<and> (map (\<lambda>n. (nid n, neighbours n)) g' = map (\<lambda>n. (nid n, neighbours n)) g
            \<longrightarrow> setGraph rnd g' s = Inr s')"
proof -
  let ?rg = "randomiseFrom rnd (width s) (height s) 0 g"
  have bounds: "\<bar>(w / 2 + (100 * rnd k) - 50) - w / 2\<bar> \<le> 50"
    "\<bar>(w / 2 + (100 * rnd k - 50)) - w / 2\<bar> \<le> 50" for w k
    using assms [rule_format, of k] by (simp_all add: abs_le_iff)
  have cell: "positionsM (encodingOf ?rg) ! (i div ceilSqrt (length g)) ! (i mod ceilSqrt (length g))
      = (node_x (?rg ! i), node_y (?rg ! i))" if "i < length g" for i
    using positionsM_cell [of i ?rg] that by simp
  have same: "setGraph rnd g' s = setGraph rnd g s"
    if "map (\<lambda>n. (nid n, neighbours n)) g' = map (\<lambda>n. (nid n, neighbours n)) g"
    using randomiseFrom_same [OF that] by (simp add: setGraph_def)
  show ?thesis
    unfolding setGraph_closed [of rnd g s]
    using bounds cell same [unfolded setGraph_closed [of rnd g s]]
    by (simp add: randomiseFrom_nth)
qed



section \<open>The engine at the sample graphs\<close>

lemma lone_new: "newEngine halfDraws [loneNode] 100 100 = Inr loneEngine"
  by code_simp

lemma pair_new: "newEngine pairDraws pairNodes 100 100 = Inr pairEngine"
  by code_simp

lemma lone_fixed_tick:
  "computeNextPositions fadd (loneEngine\<lparr>graph := map (\<lambda>n. n\<lparr>isFixed := True\<rparr>) (graph loneEngine)\<rparr>)
   = (loneEngine\<lparr> graph := [\<lparr> nid = 0, node_x = fadd 50 6, node_y = fadd 50 (1 / 10),
                                isFixed = True, neighbours = [] \<rparr>],
                  positionsMatrix := [[(fadd 50 6, fadd 50 (1 / 10))]],
                  kernel := Some \<lparr> outputSize = 1, constants_speed = 6, compiled = Some 6 \<rparr> \<rparr>,
      None)"
  by code_simp simp

lemma pair_tick:
  "computeNextPositions fadd pairEngine
   = (pairEngine\<lparr> graph := [\<lparr> nid = 0, node_x = fadd 25 6, node_y = fadd 50 (1 / 10),
                                isFixed = False, neighbours = [1] \<rparr>,
                              \<lparr> nid = 1, node_x = fadd 75 6, node_y = fadd 50 (1 / 10),
                                isFixed = False, neighbours = [0] \<rparr>],
                  positionsMatrix := [[(fadd 25 6, fadd 50 (1 / 10)), (fadd 75 6, fadd 50 (1 / 10))],
                                      [(fadd (- 1) 6, fadd (- 1) (1 / 10)),
                                       (fadd (- 1) 6, fadd (- 1) (1 / 10))]],
                  kernel := Some \<lparr> outputSize = 2, constants_speed = 6, compiled = Some 6 \<rparr> \<rparr>,
      None)"
  by code_simp simp

lemma empty_new:
  "newEngine rnd [] w h
   = Inr ((initialFields w h)\<lparr>kernel := Some \<lparr> outputSize = 0, constants_speed = 3,
                                                compiled = None \<rparr>\<rparr>)"
  by (simp add: newEngine_def setGraph_closed encodingOf_def ceilSqrt_0 matrixOf_def initialFields_def)

lemma empty_tick:
  "computeNextPositions fadd
     ((initialFields w h)\<lparr>kernel := Some \<lparr> outputSize = 0, constants_speed = 3, compiled = None \<rparr>\<rparr>)
   = ((initialFields w h)\<lparr>kernel := Some \<lparr> outputSize = 0, constants_speed = 6, compiled = None \<rparr>\<rparr>,
      Some GpuError)"
  by (simp add: computeNextPositions_def initialFields_def runKernel_def)

text \<open>
  Claim C1 says that a tick moves every node by the net force of the spring and charge
  model. On the two joined nodes at \<open>(25, 50)\<close> and \<open>(75, 50)\<close> the forces of
  that model lie along the line between the nodes and are opposite for the two nodes; the
  tick moves both nodes by the same additions of 6 and of \<open>0.1\<close>, in exact arithmetic to
  \<open>(31, 50.1)\<close> and \<open>(81, 50.1)\<close>, and does so whatever charge, rest length,
  dampening and speed are set.
\<close>

theorem tick_ignores_force_law:
  "newEngine pairDraws pairNodes 100 100 = Inr pairEngine
   \<and> map (\<lambda>n. (node_x n, node_y n)) (graph pairEngine) = [(25, 50), (75, 50)]
   \<and> snd (computeNextPositions fadd pairEngine) = None
   \<and> map (\<lambda>n. (node_x n, node_y n)) (graph (tick fadd pairEngine))
      = [(fadd 25 6, fadd 50 (1 / 10)), (fadd 75 6, fadd 50 (1 / 10))]
   \<and> map (\<lambda>n. (node_x n, node_y n))
        (graph (tick fadd (setProperties
           [''charge'' \<mapsto> Number 1, ''springRestLength'' \<mapsto> Number 1000,
            ''springDampening'' \<mapsto> Number 5, ''speed'' \<mapsto> Number 2] pairEngine)))
      = [(fadd 25 6, fadd 50 (1 / 10)), (fadd 75 6, fadd 50 (1 / 10))]
   \<and> map (\<lambda>n. (node_x n, node_y n)) (graph (tick (+) pairEngine))
      = [(31, 501 / 10), (81, 501 / 10)]
   \<and> map (\<lambda>n. (node_x n, node_y n))
        (graph (tick (+) (setProperties
           [''charge'' \<mapsto> Number 1, ''springRestLength'' \<mapsto> Number 1000,
            ''springDampening'' \<mapsto> Number 5, ''speed'' \<mapsto> Number 2] pairEngine)))
      = [(31, 501 / 10), (81, 501 / 10)]"
proof -
  have moved: "map (\<lambda>n. (node_x n, node_y n)) (graph (tick op pairEngine))
      = [(op 25 6, op 50 (1 / 10)), (op 75 6, op 50 (1 / 10))]" for op
    by (simp add: tick_def pair_tick)
  have same: "graph (tick op (setProperties props pairEngine)) = graph (tick op pairEngine)"
    for op props
    by (simp add: tick_setProperties) (simp add: setProperties_def)
  have start: "map (\<lambda>n. (node_x n, node_y n)) (graph pairEngine) = [(25, 50), (75, 50)]"
    by (simp add: pairEngine_def)
  show ?thesis
    using moved [of fadd] moved [of "(+)"] start
    by (simp add: pair_new pair_tick same)
qed

text \<open>
  Claim C2 says that a node whose fixed flag is set keeps its position over any number of
  ticks. The single node is placed at \<open>(50, 50)\<close> by the constructor; with its flag
  set to true afterwards, one tick moves it by the additions of 6 and of \<open>0.1\<close>, in
  exact arithmetic to \<open>(56, 50.1)\<close>.
\<close>

theorem fixed_node_is_moved:
  "newEngine halfDraws [loneNode] 100 100 = Inr loneEngine
   \<and> graph (loneEngine\<lparr>graph := map (\<lambda>n. n\<lparr>isFixed := True\<rparr>) (graph loneEngine)\<rparr>)
       = [\<lparr> nid = 0, node_x = 50, node_y = 50, isFixed = True, neighbours = [] \<rparr>]
   \<and> computeNextPositions fadd
         (loneEngine\<lparr>graph := map (\<lambda>n. n\<lparr>isFixed := True\<rparr>) (graph loneEngine)\<rparr>)
       = (loneEngine\<lparr> graph := [\<lparr> nid = 0, node_x = fadd 50 6, node_y = fadd 50 (1 / 10),
                                    isFixed = True, neighbours = [] \<rparr>],
                      positionsMatrix := [[(fadd 50 6, fadd 50 (1 / 10))]],
                      kernel := Some \<lparr> outputSize = 1, constants_speed = 6,
                                         compiled = Some 6 \<rparr> \<rparr>, None)
   \<and> computeNextPositions (+)
         (loneEngine\<lparr>graph := map (\<lambda>n. n\<lparr>isFixed := True\<rparr>) (graph loneEngine)\<rparr>)
       = (loneEngine\<lparr> graph := [\<lparr> nid = 0, node_x = 56, node_y = 501 / 10, isFixed = True,
                                    neighbours = [] \<rparr>],
                      positionsMatrix := [[(56, 501 / 10)]],
                      kernel := Some \<lparr> outputSize = 1, constants_speed = 6,
                                         compiled = Some 6 \<rparr> \<rparr>, None)"
  by (simp add: lone_new lone_fixed_tick) (simp add: loneEngine_def)

text \<open>
  Claim C7 says that on the empty graph the encoding yields empty matrices and the tick
  returns without changing anything. The matrices are empty, but the tick raises the
  constant of the kernel from 3 to 6 and then fails: the GPU library raises an Error when
  it is called for an output without cells.
\<close>

theorem empty_graph_tick_raises:
  "newEngine rnd [] w h
     = Inr ((initialFields w h)\<lparr>kernel := Some \<lparr> outputSize = 0, constants_speed = 3,
                                                  compiled = None \<rparr>\<rparr>)
   \<and> positionsMatrix ((initialFields w h)\<lparr>kernel := Some \<lparr> outputSize = 0, constants_speed = 3,
                                                  compiled = None \<rparr>\<rparr>) = []
   \<and> nodesMatrix ((initialFields w h)\<lparr>kernel := Some \<lparr> outputSize = 0, constants_speed = 3,
                                                  compiled = None \<rparr>\<rparr>) = []
   \<and> adjacencyMatrix ((initialFields w h)\<lparr>kernel := Some \<lparr> outputSize = 0, constants_speed = 3,
                                                  compiled = None \<rparr>\<rparr>) = []
   \<and> computeNextPositions fadd
         ((initialFields w h)\<lparr>kernel := Some \<lparr> outputSize = 0, constants_speed = 3,
                                                  compiled = None \<rparr>\<rparr>)
       = ((initialFields w h)\<lparr>kernel := Some \<lparr> outputSize = 0, constants_speed = 6,
                                                  compiled = None \<rparr>\<rparr>,
          Some GpuError)"
  by (simp add: empty_new empty_tick) (simp add: initialFields_def)

lemma pair_set: "setGraph pairDraws stalePairNodes (initialFields 100 100) = Inr pairEngine"
  by code_simp

lemma pairDraws_unit: "\<forall>k. 0 \<le> pairDraws k \<and> pairDraws k < 1"
  by (simp add: pairDraws_def)

theorem setGraph_discards_node_state_witness:
  "(\<forall>k. 0 \<le> pairDraws k \<and> pairDraws k < 1)
   \<and> (1::nat) < length stalePairNodes
   \<and> map (\<lambda>n. (nid n, neighbours n)) pairNodes = map (\<lambda>n. (nid n, neighbours n)) stalePairNodes
   \<and> map (\<lambda>n. (node_x n, node_y n, isFixed n)) stalePairNodes = [(7, 9, True), (- 3, 8, True)]
   \<and> (\<exists>s'. setGraph pairDraws stalePairNodes (initialFields 100 100) = Inr s'
         \<and> map (\<lambda>n. (node_x n, node_y n, isFixed n)) (graph s')
             = [(25, 50, False), (75, 50, False)]
         \<and> node_x (graph s' ! 1) = width (initialFields 100 100) / 2 + (100 * pairDraws (2 * 1)) - 50
         \<and> positionsMatrix s' = [[(25, 50), (75, 50)], [(- 1, - 1), (- 1, - 1)]]
         \<and> setGraph pairDraws pairNodes (initialFields 100 100) = Inr s')"
proof -
  have m: "map (\<lambda>n. (nid n, neighbours n)) pairNodes
       = map (\<lambda>n. (nid n, neighbours n)) stalePairNodes"
    by (simp add: pairNodes_def stalePairNodes_def)
  have l: "(1::nat) < length stalePairNodes" by (simp add: stalePairNodes_def)
  have old: "map (\<lambda>n. (node_x n, node_y n, isFixed n)) stalePairNodes = [(7, 9, True), (- 3, 8, True)]"
    by (simp add: stalePairNodes_def)
  have x1: "node_x (graph pairEngine ! 1)
      = width (initialFields 100 100) / 2 + (100 * pairDraws (2 * 1)) - 50"
    using l setGraph_discards_node_state
      [OF pairDraws_unit, where g = stalePairNodes and s = "initialFields 100 100"
         and g' = pairNodes]
    by (simp add: pair_set)
  have same: "setGraph pairDraws pairNodes (initialFields 100 100) = Inr pairEngine"
    using m setGraph_discards_node_state
      [OF pairDraws_unit, where g = stalePairNodes and s = "initialFields 100 100"
         and g' = pairNodes]
    by (simp add: pair_set)
  have new: "map (\<lambda>n. (node_x n, node_y n, isFixed n)) (graph pairEngine)
             = [(25, 50, False), (75, 50, False)]"
    "positionsMatrix pairEngine = [[(25, 50), (75, 50)], [(- 1, - 1), (- 1, - 1)]]"
    by (simp_all add: pairEngine_def)
  show ?thesis
    using pairDraws_unit l m old x1 same new by (simp add: pair_set)
qed


end
